theory Spec2Isabelle
  imports Complex_Main
begin

section \<open>The simulated GNSS/IMU recorder node\<close>

text \<open>
  A shallow embedding of \<^verbatim>\<open>recorder_node_allan_variance_analysis.py\<close>: the generator
  \<^verbatim>\<open>get_gnss_ins_sim\<close>, which zips the four series of the simulator and yields one
  measurement per index, and \<^verbatim>\<open>gnss_ins_sim_recorder\<close>, which turns every measurement into
  an Imu message and an Odometry message and writes both to the bag.

  Conventions of the model:
  \<^item> The samples of the simulator, and the differences and the sum the recorder forms of
    them, are modelled as \<open>real\<close> numbers with exact arithmetic. The time stamp, the one
    number the generator computes itself, is a double: the division and the product that
    give it are rounded as IEEE 754 binary64 rounds them.
  \<^item> The simulator (\<^verbatim>\<open>ins_sim.Sim\<close>) is a black box: the model starts from the four series
    it hands over. A row is a list of numbers, so that a row which is too short for a
    subscript is a value of the model.
  \<^item> \<^verbatim>\<open>geoparams.geo_param\<close>, \<^verbatim>\<open>rospy.Time.now\<close>, \<^verbatim>\<open>rospy.Duration.from_sec\<close>, the sum of a
    time and a duration, and the two topic names are not part of the file: they are
    parameters of the model, collected in the record \<open>ros_env\<close>.
  \<^item> An exception is a value: the generator returns the measurements it has yielded and
    the exception that ended it, if any; the recorder returns its final state likewise.
\<close>

subsection \<open>Exceptions and subscripts\<close>

text \<open>\<open>ExternalError\<close> stands for whatever the resolver may raise.\<close>

datatype py_error = ZeroDivisionError | IndexError | UnboundLocalError | ExternalError

text \<open>\<^verbatim>\<open>xs[i]\<close> for a constant, non-negative \<open>i\<close>: IndexError out of range.\<close>

definition py_index :: "'a list \<Rightarrow> nat \<Rightarrow> py_error + 'a" where
  "py_index xs i = (if i < length xs then Inr (xs ! i) else Inl IndexError)"

subsection \<open>Doubles\<close>

text \<open>
  A Python float is an IEEE 754 binary64 value: a finite number, an infinity or NaN. The two
  zeros are one value here; nothing in the file tells them apart.
\<close>

datatype pyfloat = Finite real | PInf | NInf | NaN

text \<open>Rounding to the nearest integer, a tie going to the even one.\<close>

definition round_half_even :: "real \<Rightarrow> int" where
  "round_half_even y =
     (let f = \<lfloor>y\<rfloor>; d = y - of_int f
      in if d < 1 / 2 then f else if 1 / 2 < d then f + 1 else if even f then f else f + 1)"

text \<open>
  The binary exponent by which a double represents \<open>x\<close>: the \<open>k\<close> between -1074 and 1023
  with \<open>2 powi k \<le> \<bar>x\<bar> < 2 powi (k + 1)\<close>, -1074 below that range and 1024 above it.
\<close>

definition binade :: "real \<Rightarrow> int" where
  "binade x = (case find (\<lambda>k. \<bar>x\<bar> < 2 powi (k + 1)) [-1074..1023] of Some k \<Rightarrow> k | None \<Rightarrow> 1024)"

text \<open>
  The nearest number with a significand of 53 bits and an exponent of at least -1074 (the
  subnormal numbers share the least exponent), before the test for overflow.
\<close>

definition round_double :: "real \<Rightarrow> real" where
  "round_double x =
     (let e = max (binade x - 52) (-1074)
      in of_int (round_half_even (x / 2 powi e)) * 2 powi e)"

text \<open>The double that an exact result \<open>x\<close> is rounded to: an infinity from \<open>2 ^ 1024\<close> on.\<close>

definition to_double :: "real \<Rightarrow> pyfloat" where
  "to_double x =
     (let r = round_double x
      in if 2 ^ 1024 \<le> r then PInf else if r \<le> - (2 ^ 1024) then NInf else Finite r)"

text \<open>
  The conversion of an integer operand, here the index of \<^verbatim>\<open>enumerate\<close>, for a product with a
  float. It is exact below \<open>2 ^ 53\<close>. Where it is \<open>PInf\<close>, from about \<open>2 ^ 1024\<close> on, Python
  raises OverflowError instead; no list is that long.
\<close>

definition int_to_float :: "nat \<Rightarrow> pyfloat" where
  "int_to_float i = to_double (real i)"

text \<open>\<^verbatim>\<open>a / b\<close> for two finite doubles: ZeroDivisionError for a zero divisor.\<close>

definition float_div :: "real \<Rightarrow> real \<Rightarrow> py_error + pyfloat" where
  "float_div a b = (if b = 0 then Inl ZeroDivisionError else Inr (to_double (a / b)))"

text \<open>\<^verbatim>\<open>a * b\<close> for two doubles.\<close>

fun float_mul :: "pyfloat \<Rightarrow> pyfloat \<Rightarrow> pyfloat" where
  "float_mul (Finite a) (Finite b) = to_double (a * b)"
| "float_mul NaN _ = NaN"
| "float_mul _ NaN = NaN"
| "float_mul (Finite a) PInf = (if a = 0 then NaN else if 0 < a then PInf else NInf)"
| "float_mul (Finite a) NInf = (if a = 0 then NaN else if 0 < a then NInf else PInf)"
| "float_mul PInf (Finite b) = (if b = 0 then NaN else if 0 < b then PInf else NInf)"
| "float_mul NInf (Finite b) = (if b = 0 then NaN else if 0 < b then NInf else PInf)"
| "float_mul PInf PInf = PInf"
| "float_mul PInf NInf = NInf"
| "float_mul NInf PInf = NInf"
| "float_mul NInf NInf = PInf"

subsection \<open>The simulator's output and the measurements\<close>

type_synonym row = "real list"

text \<open>
  \<open>gyro\<close> and \<open>accel\<close> are \<^verbatim>\<open>sim.dmgr.get_data_all(..).data[0]\<close>, \<open>ref_pos\<close> and
  \<open>ref_att_quat\<close> are \<^verbatim>\<open>sim.dmgr.get_data_all(..).data\<close>.
\<close>

record sim_output =
  gyro :: "row list"
  accel :: "row list"
  ref_pos :: "row list"
  ref_att_quat :: "row list"

text \<open>The dictionary under the key \<^verbatim>\<open>'data'\<close> and the dictionary that is yielded.\<close>

record meas_data =
  gyro_x :: real
  gyro_y :: real
  gyro_z :: real
  accel_x :: real
  accel_y :: real
  accel_z :: real
  ref_pos_x :: real
  ref_pos_y :: real
  ref_pos_z :: real
  q0 :: real
  q1 :: real
  q2 :: real
  q3 :: real

record measurement =
  stamp :: pyfloat
  data :: meas_data

subsection \<open>The generator \<^verbatim>\<open>get_gnss_ins_sim\<close>\<close>

text \<open>
  The dictionary literal of the \<^verbatim>\<open>yield\<close> (lines 97 to 118). It reads the subscripts 0, 1, 2
  of the gyro, accel and position rows and 0, 1, 2, 3 of the quaternion row; each of them
  raises IndexError on a row that is too short, and no other exception is possible, so the
  thirteen subscripts are guarded by one test.
\<close>

definition make_measurement ::
    "pyfloat \<Rightarrow> nat \<Rightarrow> row \<Rightarrow> row \<Rightarrow> row \<Rightarrow> row \<Rightarrow> py_error + measurement" where
  "make_measurement step_size i g a p q =
     (if length g < 3 \<or> length a < 3 \<or> length p < 3 \<or> length q < 4 then Inl IndexError
      else Inr \<lparr>stamp = float_mul (int_to_float i) step_size,
                data = \<lparr>gyro_x = g ! 0, gyro_y = g ! 1, gyro_z = g ! 2,
                        accel_x = a ! 0, accel_y = a ! 1, accel_z = a ! 2,
                        ref_pos_x = p ! 0, ref_pos_y = p ! 1, ref_pos_z = p ! 2,
                        q0 = q ! 0, q1 = q ! 1, q2 = q ! 2, q3 = q ! 3\<rparr>\<rparr>)"

text \<open>
  The \<^verbatim>\<open>for\<close> loop over the enumerated zip (lines 85 to 118): the measurements yielded, in
  order, and the exception that ended the loop (\<open>None\<close> when the zip was exhausted).
\<close>

fun yield_all ::
    "pyfloat \<Rightarrow> (nat \<times> row \<times> row \<times> row \<times> row) list \<Rightarrow> measurement list \<times> py_error option" where
  "yield_all step_size [] = ([], None)"
| "yield_all step_size ((i, g, a, p, q) # rest) =
     (case make_measurement step_size i g a p q of
        Inl e \<Rightarrow> ([], Some e)
      | Inr m \<Rightarrow> (case yield_all step_size rest of (ms, e) \<Rightarrow> (m # ms, e)))"

text \<open>
  \<^verbatim>\<open>get_gnss_ins_sim\<close> from line 84 on. \<open>fs_imu\<close> is the value of the frequency parameter, a
  finite double. \<^verbatim>\<open>1.0 / fs_imu\<close> raises ZeroDivisionError for a zero frequency, before
  anything is yielded. The arguments \<^verbatim>\<open>motion_def_file\<close> and \<^verbatim>\<open>fs_gps\<close> only reach the
  simulator, whose output \<open>sim\<close> stands for them here.
\<close>

definition get_gnss_ins_sim :: "sim_output \<Rightarrow> real \<Rightarrow> measurement list \<times> py_error option" where
  "get_gnss_ins_sim sim fs_imu =
     (case float_div 1 fs_imu of
        Inl e \<Rightarrow> ([], Some e)
      | Inr step_size \<Rightarrow>
          yield_all step_size
            (enumerate 0 (zip (gyro sim) (zip (accel sim) (zip (ref_pos sim) (ref_att_quat sim))))))"

text \<open>
  The shape the data model asks of a simulation output: every row is wide enough for the
  components read from it (three for gyro, accel and position, four for the quaternion).
\<close>

definition rows_wide_enough :: "sim_output \<Rightarrow> bool" where
  "rows_wide_enough sim \<longleftrightarrow>
     list_all (\<lambda>r. 3 \<le> length r) (gyro sim) \<and> list_all (\<lambda>r. 3 \<le> length r) (accel sim) \<and>
     list_all (\<lambda>r. 3 \<le> length r) (ref_pos sim) \<and> list_all (\<lambda>r. 4 \<le> length r) (ref_att_quat sim)"

subsection \<open>The messages and the bag\<close>

text \<open>
  The fields of \<^verbatim>\<open>sensor_msgs/Imu\<close> and \<^verbatim>\<open>nav_msgs/Odometry\<close> that the recorder assigns; the
  others keep the defaults of the message constructors and are left out. The fields
  \<^verbatim>\<open>x, y, z, w\<close> carry the name of their message type, \<^verbatim>\<open>header.stamp\<close> is \<open>hdr_stamp\<close>, and
  \<^verbatim>\<open>pose.pose.position\<close>, \<^verbatim>\<open>pose.pose.orientation\<close> are \<open>pose_position\<close>, \<open>pose_orientation\<close>.
\<close>

record 't msg_header =
  hdr_stamp :: 't
  frame_id :: string

record quaternion =
  quat_x :: real
  quat_y :: real
  quat_z :: real
  quat_w :: real

record vector3 =
  vec_x :: real
  vec_y :: real
  vec_z :: real

record point =
  pt_x :: real
  pt_y :: real
  pt_z :: real

record 't imu =
  header :: "'t msg_header"
  orientation :: quaternion
  angular_velocity :: vector3
  linear_acceleration :: vector3

record 't odometry =
  odom_header :: "'t msg_header"
  child_frame_id :: string
  pose_position :: point
  pose_orientation :: quaternion

datatype 't ros_msg = ImuMsg "'t imu" | OdometryMsg "'t odometry"

text \<open>One call of \<^verbatim>\<open>bag.write(topic, msg, t)\<close>.\<close>

type_synonym 't bag_entry = "string \<times> 't ros_msg \<times> 't"

text \<open>What the recorder takes from its surroundings.\<close>

record ('t, 'd) ros_env =
  timestamp_start :: 't
  duration_from_sec :: "pyfloat \<Rightarrow> 'd"
  time_add :: "'t \<Rightarrow> 'd \<Rightarrow> 't"
  geo_param :: "real list \<Rightarrow> py_error + real list"
  topic_name_imu :: string
  topic_name_pos :: string

text \<open>
  The local variables of the loop of \<^verbatim>\<open>gnss_ins_sim_recorder\<close> and the bag. The three
  origin variables are unbound until the first assignment.
\<close>

record 't rec_state =
  idx :: nat
  x_ori :: "real option"
  y_ori :: "real option"
  z_ori :: "real option"
  bag :: "'t bag_entry list"

subsection \<open>The recorder \<^verbatim>\<open>gnss_ins_sim_recorder\<close>\<close>

text \<open>\<^verbatim>\<open>timestamp_start + rospy.Duration.from_sec(measurement['stamp'])\<close>.\<close>

definition header_stamp :: "('t, 'd) ros_env \<Rightarrow> measurement \<Rightarrow> 't" where
  "header_stamp env m = time_add env (timestamp_start env) (duration_from_sec env (stamp m))"

text \<open>Lines 167 to 177, \<^verbatim>\<open># set pose\<close>: the Odometry message.\<close>

definition set_pose :: "('t, 'd) ros_env \<Rightarrow> real \<Rightarrow> real \<Rightarrow> real \<Rightarrow> measurement \<Rightarrow> 't odometry" where
  "set_pose env xo yo zo m =
     \<lparr>odom_header = \<lparr>hdr_stamp = header_stamp env m, frame_id = ''inertial''\<rparr>,
      child_frame_id = ''inertial'',
      pose_position = \<lparr>pt_x = ref_pos_x (data m) - xo,
                       pt_y = ref_pos_y (data m) - yo,
                       pt_z = ref_pos_z (data m) - zo\<rparr>,
      pose_orientation = \<lparr>quat_x = q0 (data m), quat_y = q1 (data m),
                          quat_z = q2 (data m), quat_w = q3 (data m)\<rparr>\<rparr>"

text \<open>
  Lines 181 to 185, \<^verbatim>\<open># calculate g\<close>: the resolver is called on the three differences, and
  the component 2 of what it returns is the gravity. The call may raise, and so may the
  subscript.
\<close>

definition calculate_g :: "('t, 'd) ros_env \<Rightarrow> real \<Rightarrow> real \<Rightarrow> real \<Rightarrow> measurement \<Rightarrow> py_error + real" where
  "calculate_g env xo yo zo m =
     (let rpx = ref_pos_x (data m) - xo;
          rpy = ref_pos_y (data m) - yo;
          rpz = ref_pos_z (data m) - zo
      in case geo_param env [rpx, rpy, rpz] of
           Inl e \<Rightarrow> Inl e
         | Inr earth_para \<Rightarrow> py_index earth_para 2)"

text \<open>Lines 188 to 203: the Imu message.\<close>

definition set_imu :: "('t, 'd) ros_env \<Rightarrow> measurement \<Rightarrow> real \<Rightarrow> 't imu" where
  "set_imu env m g =
     \<lparr>header = \<lparr>hdr_stamp = header_stamp env m, frame_id = ''ENU''\<rparr>,
      orientation = \<lparr>quat_x = q0 (data m), quat_y = q1 (data m),
                     quat_z = q2 (data m), quat_w = q3 (data m)\<rparr>,
      angular_velocity = \<lparr>vec_x = gyro_x (data m), vec_y = gyro_y (data m),
                          vec_z = gyro_z (data m)\<rparr>,
      linear_acceleration = \<lparr>vec_x = accel_x (data m), vec_y = accel_y (data m),
                             vec_z = accel_z (data m) + g\<rparr>\<rparr>"

text \<open>
  The body of the loop (lines 159 to 207) on one measurement: the state it leaves, and the
  exception it raised, if any. The two writes are the last statements, so an iteration
  that raises has written nothing.
\<close>

definition record_measurement ::
    "('t, 'd) ros_env \<Rightarrow> 't rec_state \<Rightarrow> measurement \<Rightarrow> 't rec_state \<times> py_error option" where
  "record_measurement env st m =
     (let st1 = (if idx st = 0
                 then st\<lparr>x_ori := Some (ref_pos_x (data m)),
                         y_ori := Some (ref_pos_y (data m)),
                         z_ori := Some (ref_pos_z (data m)),
                         idx := 1\<rparr>
                 else st)
      in case (x_ori st1, y_ori st1, z_ori st1) of
           (Some xo, Some yo, Some zo) \<Rightarrow>
             (let msg_pos = set_pose env xo yo zo m in
              case calculate_g env xo yo zo m of
                Inl e \<Rightarrow> (st1, Some e)
              | Inr g \<Rightarrow>
                  (let msg = set_imu env m g in
                   (st1\<lparr>bag := bag st1 @
                           [(topic_name_imu env, ImuMsg msg, hdr_stamp (header msg)),
                            (topic_name_pos env, OdometryMsg msg_pos,
                             hdr_stamp (odom_header msg_pos))]\<rparr>,
                    None)))
         | _ \<Rightarrow> (st1, Some UnboundLocalError))"

text \<open>\<^verbatim>\<open>for measurement in imu_simulator\<close>: an exception ends the loop.\<close>

fun recorder_loop ::
    "('t, 'd) ros_env \<Rightarrow> 't rec_state \<Rightarrow> measurement list \<Rightarrow> 't rec_state \<times> py_error option" where
  "recorder_loop env st [] = (st, None)"
| "recorder_loop env st (m # ms) =
     (case record_measurement env st m of
        (st', Some e) \<Rightarrow> (st', Some e)
      | (st', None) \<Rightarrow> recorder_loop env st' ms)"

text \<open>The state before the loop: \<^verbatim>\<open>idx = 0\<close>, no origin, an empty bag.\<close>

definition init_state :: "'t rec_state" where
  "init_state = \<lparr>idx = 0, x_ori = None, y_ori = None, z_ori = None, bag = []\<rparr>"

text \<open>
  \<^verbatim>\<open>gnss_ins_sim_recorder\<close>. The generator is lazy, so the recorder consumes a measurement
  before the next one is made: an exception of the loop body comes before an exception
  that the generator would raise further on, and the generator's own exception arrives
  after everything it yielded has been written.
\<close>

definition gnss_ins_sim_recorder ::
    "('t, 'd) ros_env \<Rightarrow> sim_output \<Rightarrow> real \<Rightarrow> 't rec_state \<times> py_error option" where
  "gnss_ins_sim_recorder env sim sample_freq_imu =
     (case get_gnss_ins_sim sim sample_freq_imu of
        (ms, gen_err) \<Rightarrow>
          (case recorder_loop env init_state ms of
             (st, Some e) \<Rightarrow> (st, Some e)
           | (st, None) \<Rightarrow> (st, gen_err)))"

text \<open>
  The contract the specification gives the resolver: it raises for no position, and what it
  returns has a component 2.
\<close>

definition geo_param_total :: "('t, 'd) ros_env \<Rightarrow> bool" where
  "geo_param_total env \<longleftrightarrow> (\<forall>p. \<exists>earth_para. geo_param env p = Inr earth_para \<and> 2 < length earth_para)"

text \<open>
  The two entries that an iteration of the loop appends to the bag for the measurement \<open>m\<close>
  when the origin is \<open>(xo, yo, zo)\<close> and \<open>calculate_g\<close> returns (lines 206 and 207).
\<close>

definition written :: "('t, 'd) ros_env \<Rightarrow> real \<Rightarrow> real \<Rightarrow> real \<Rightarrow> measurement \<Rightarrow> 't bag_entry list" where
  "written env xo yo zo m =
     [(topic_name_imu env, ImuMsg (set_imu env m (projr (calculate_g env xo yo zo m))), header_stamp env m),
      (topic_name_pos env, OdometryMsg (set_pose env xo yo zo m), header_stamp env m)]"

subsection \<open>Simulation outputs of the scenarios\<close>

text \<open>Scenario A: two samples in every series. Scenario B: 1000 gyro and accel samples, 10
  position and attitude samples.\<close>

definition scenario_A :: sim_output where
  "scenario_A = \<lparr>gyro = [[0, 0, 0], [0, 0, 0]], accel = [[0, 0, 0], [0, 0, 0]],
                 ref_pos = [[0, 0, 0], [5, 0, 0]], ref_att_quat = [[0, 0, 0, 1], [0, 0, 0, 1]]\<rparr>"

definition scenario_B :: sim_output where
  "scenario_B = \<lparr>gyro = replicate 1000 [0, 0, 0], accel = replicate 1000 [0, 0, 0],
                 ref_pos = replicate 10 [0, 0, 0], ref_att_quat = replicate 10 [0, 0, 0, 1]\<rparr>"

text \<open>Scenario C: the origin is subtracted from every position. Scenario D: one sample with
  the raw acceleration (0.1, 0.2, 9.7).\<close>

definition scenario_C :: sim_output where
  "scenario_C = \<lparr>gyro = [[0, 0, 0], [0, 0, 0]], accel = [[0, 0, 0], [0, 0, 0]],
                 ref_pos = [[1, 2, 3], [6, 2, 3]], ref_att_quat = [[1, 0, 0, 0], [1, 0, 0, 0]]\<rparr>"

definition scenario_D :: sim_output where
  "scenario_D = \<lparr>gyro = [[1, 2, 3]], accel = [[1 / 10, 2 / 10, 97 / 10]],
                 ref_pos = [[4, 5, 6]], ref_att_quat = [[7, 8, 9, 10]]\<rparr>"

text \<open>Scenario E: the position moves by one unit along the first axis.\<close>

definition scenario_E :: sim_output where
  "scenario_E = \<lparr>gyro = [[0, 0, 0], [0, 0, 0]], accel = [[0, 0, 0], [0, 0, 0]],
                 ref_pos = [[1, 2, 3], [2, 2, 3]], ref_att_quat = [[1, 0, 0, 0], [1, 0, 0, 0]]\<rparr>"

text \<open>Series of unequal lengths, a series that is empty, and a gyro row with two components.\<close>

definition scenario_short_accel :: sim_output where
  "scenario_short_accel = \<lparr>gyro = replicate 3 [0, 0, 0], accel = replicate 2 [0, 0, 0],
       ref_pos = replicate 3 [0, 0, 0], ref_att_quat = replicate 3 [0, 0, 0, 1]\<rparr>"

definition scenario_short_quat :: sim_output where
  "scenario_short_quat = \<lparr>gyro = replicate 3 [0, 0, 0], accel = replicate 3 [0, 0, 0],
       ref_pos = replicate 3 [0, 0, 0], ref_att_quat = replicate 1 [0, 0, 0, 1]\<rparr>"

definition scenario_empty :: sim_output where
  "scenario_empty = \<lparr>gyro = [], accel = [[0, 0, 0]], ref_pos = [[0, 0, 0]], ref_att_quat = [[0, 0, 0, 1]]\<rparr>"

definition scenario_ragged :: sim_output where
  "scenario_ragged = \<lparr>gyro = [[1, 2, 3], [4, 5]], accel = [[0, 0, 0], [0, 0, 0]],
       ref_pos = [[0, 0, 0], [0, 0, 0]], ref_att_quat = [[0, 0, 0, 1], [0, 0, 0, 1]]\<rparr>"

text \<open>Scenario F: 36 samples in every series. Scenario G: two samples, the second with the
  raw acceleration (0.1, 0.2, 9.7) and one unit away from the first along the first axis.\<close>

definition scenario_F :: sim_output where
  "scenario_F = \<lparr>gyro = replicate 36 [0, 0, 0], accel = replicate 36 [0, 0, 0],
                 ref_pos = replicate 36 [0, 0, 0], ref_att_quat = replicate 36 [0, 0, 0, 1]\<rparr>"


text \<open>Three surroundings for the recorder: a resolver that returns the same gravity
  everywhere, and two whose gravity depends on the position they are given.\<close>

definition env_const :: "real \<Rightarrow> (real, real) ros_env" where
  "env_const g = \<lparr>timestamp_start = 1000, duration_from_sec = (\<lambda>s. case s of Finite r \<Rightarrow> r | _ \<Rightarrow> 0), time_add = (\<lambda>t d. t + d),
                  geo_param = (\<lambda>p. Inr [0, 0, g]),
                  topic_name_imu = ''imu'', topic_name_pos = ''pose''\<rparr>"

definition env_varying :: "(real, real) ros_env" where
  "env_varying = \<lparr>timestamp_start = 1000, duration_from_sec = (\<lambda>s. case s of Finite r \<Rightarrow> r | _ \<Rightarrow> 0), time_add = (\<lambda>t d. t + d),
                  geo_param = (\<lambda>p. Inr [0, 0, 981 / 100 + sum_list p]),
                  topic_name_imu = ''imu'', topic_name_pos = ''pose''\<rparr>"


section \<open>Properties of the rounding\<close>

lemma round_half_even_error: "\<bar>of_int (round_half_even y) - y\<bar> \<le> 1 / 2"
  unfolding round_half_even_def Let_def by (auto simp: abs_if) linarith+

lemma round_half_even_of_int: "round_half_even (of_int n) = n"
  by (simp add: round_half_even_def)

lemma binade_eq:
  assumes "-1074 \<le> k" and "k \<le> 1023" and "2 powi k \<le> \<bar>x\<bar>" and "\<bar>x\<bar> < 2 powi (k + 1)"
  shows "binade x = k"
proof -
  let ?P = "\<lambda>k. \<bar>x\<bar> < 2 powi (k + 1)"
  let ?i = "nat (k + 1074)"
  have len: "?i < length [-1074..1023::int]" using assms(1,2) by simp
  have nth: "\<And>j. j \<le> ?i \<Longrightarrow> [-1074..1023::int] ! j = -1074 + int j"
    using assms(1,2) by (intro nth_upto) linarith
  have "[-1074..1023::int] ! ?i = k" using nth[of ?i] assms(1) by simp
  moreover have "\<not> ?P ([-1074..1023::int] ! j)" if "j < ?i" for j
  proof -
    have "-1074 + int j + 1 \<le> k" using that by linarith
    then have "(2::real) powi (-1074 + int j + 1) \<le> 2 powi k"
      by (intro power_int_increasing) simp_all
    with assms(3) show ?thesis using nth[of j] that by simp
  qed
  ultimately have "find ?P [-1074..1023] = Some k"
    unfolding find_Some_iff using len assms(4) by (intro exI[of _ ?i]) auto
  then show ?thesis by (simp add: binade_def)
qed

lemma binade_subnormal:
  assumes "\<bar>x\<bar> < 2 powi (-1073)"
  shows "binade x = -1074"
proof -
  have "[-1074..1023::int] = -1074 # [-1073..1023]" by (simp add: upto_rec1)
  with assms show ?thesis by (simp add: binade_def)
qed

lemma binade_normal:
  assumes "2 powi (-1022) \<le> \<bar>x\<bar>" and "\<bar>x\<bar> < 2 powi 1024"
  shows "-1022 \<le> binade x" and "binade x \<le> 1023"
    and "2 powi (binade x) \<le> \<bar>x\<bar>" and "\<bar>x\<bar> < 2 powi (binade x + 1)"
proof -
  have "(0::real) < 2 powi (-1022)" by (rule zero_less_power_int) simp
  with assms(1) have pos: "0 < \<bar>x\<bar>" by linarith
  define k where "k = \<lfloor>log 2 \<bar>x\<bar>\<rfloor>"
  have "\<lfloor>log 2 \<bar>x\<bar>\<rfloor> = k" by (simp add: k_def)
  then have "2 powr real_of_int k \<le> \<bar>x\<bar> \<and> \<bar>x\<bar> < 2 powr real_of_int (k + 1)"
    by (subst (asm) floor_log_eq_powr_iff) (use pos in simp_all)
  moreover have "(2::real) powr real_of_int k = 2 powi k"
    and "(2::real) powr real_of_int (k + 1) = 2 powi (k + 1)"
    by (rule powr_real_of_int'; simp)+
  ultimately have lo: "2 powi k \<le> \<bar>x\<bar>" and hi: "\<bar>x\<bar> < 2 powi (k + 1)"
    by (simp_all only:)
  have k1: "-1022 \<le> k"
  proof (rule ccontr)
    assume "\<not> -1022 \<le> k"
    then have "k + 1 \<le> -1022" by simp
    then have "(2::real) powi (k + 1) \<le> 2 powi (-1022)" by (intro power_int_increasing) simp_all
    with hi assms(1) show False by linarith
  qed
  have k2: "k \<le> 1023"
  proof (rule ccontr)
    assume "\<not> k \<le> 1023"
    then have "1024 \<le> k" by simp
    then have "(2::real) powi 1024 \<le> 2 powi k" by (intro power_int_increasing) simp_all
    with lo assms(2) show False by linarith
  qed
  have "binade x = k" using k1 k2 lo hi by (intro binade_eq) simp_all
  with k1 k2 lo hi show "-1022 \<le> binade x" "binade x \<le> 1023"
    "2 powi (binade x) \<le> \<bar>x\<bar>" "\<bar>x\<bar> < 2 powi (binade x + 1)" by simp_all
qed

lemma round_double_error:
  assumes "2 powi (-1022) \<le> \<bar>x\<bar>" and "\<bar>x\<bar> < 2 powi 1024"
  shows "\<bar>round_double x - x\<bar> \<le> \<bar>x\<bar> / 2 ^ 53"
proof -
  define e where "e = binade x - 52"
  note b = binade_normal[OF assms]
  have e: "max (binade x - 52) (-1074) = e" using b(1) by (simp add: e_def)
  have p: "(0::real) < 2 powi e" by simp
  have "round_double x - x = (of_int (round_half_even (x / 2 powi e)) - x / 2 powi e) * 2 powi e"
    unfolding round_double_def e Let_def using p by (simp add: algebra_simps)
  then have "\<bar>round_double x - x\<bar> = \<bar>of_int (round_half_even (x / 2 powi e)) - x / 2 powi e\<bar> * 2 powi e"
    using p by (simp add: abs_mult)
  also have "\<dots> \<le> 1 / 2 * 2 powi e"
    using round_half_even_error[of "x / 2 powi e"] p by (intro mult_right_mono) simp_all
  also have "1 / 2 * (2::real) powi e = 2 powi (binade x) / 2 ^ 53"
  proof -
    have "(2::real) powi (binade x) = 2 powi (e + 52)" by (simp add: e_def)
    also have "\<dots> = 2 powi e * 2 ^ 52" by (simp add: power_int_add)
    finally show ?thesis by simp
  qed
  also have "\<dots> \<le> \<bar>x\<bar> / 2 ^ 53" using b(3) by (simp add: divide_right_mono)
  finally show ?thesis .
qed

lemma round_double_binade:
  assumes "-1022 \<le> k" and "k \<le> 1023" and "2 powi k \<le> \<bar>x\<bar>" and "\<bar>x\<bar> < 2 powi (k + 1)"
  shows "round_double x = of_int (round_half_even (x / 2 powi (k - 52))) * 2 powi (k - 52)"
proof -
  have b: "binade x = k" using assms by (intro binade_eq) simp_all
  have e: "max (k - 52) (-1074) = k - 52" using assms(1) by simp
  show ?thesis unfolding round_double_def b e Let_def ..
qed

lemma round_double_zero: "round_double 0 = 0"
  by (simp add: round_double_def round_half_even_def)

lemma to_double_finite:
  assumes "\<bar>round_double x\<bar> < 2 ^ 1024"
  shows "to_double x = Finite (round_double x)"
  using assms by (simp add: to_double_def Let_def abs_if split: if_splits)

lemma to_double_zero: "to_double 0 = Finite 0"
  by (simp add: to_double_finite round_double_zero)

lemma to_double_hundredth: "to_double (1 / 100) = Finite (5764607523034235 / 2 ^ 59)"
proof -
  have "round_double (1 / 100) = 5764607523034235 / 2 ^ 59"
    by (subst round_double_binade[where k = "-7"]) (simp_all add: round_half_even_def)
  then show ?thesis by (simp add: to_double_finite)
qed

lemma to_double_stamp_1: "to_double (1 * (5764607523034235 / 2 ^ 59)) = Finite (5764607523034235 / 2 ^ 59)"
proof -
  have "round_double (1 * (5764607523034235 / 2 ^ 59)) = 5764607523034235 / 2 ^ 59"
    by (subst round_double_binade[where k = "-7"]) (simp_all add: round_half_even_def)
  then show ?thesis by (simp add: to_double_finite)
qed

lemma to_double_stamp_35: "to_double (35 * (5764607523034235 / 2 ^ 59)) = Finite (6305039478318695 / 2 ^ 54)"
proof -
  have "round_double (35 * (5764607523034235 / 2 ^ 59)) = 6305039478318695 / 2 ^ 54"
    by (subst round_double_binade[where k = "-2"]) (simp_all add: round_half_even_def)
  then show ?thesis by (simp add: to_double_finite)
qed

lemma to_double_035: "to_double (35 / 100) = Finite (6305039478318694 / 2 ^ 54)"
proof -
  have "round_double (35 / 100) = 6305039478318694 / 2 ^ 54"
    by (subst round_double_binade[where k = "-2"]) (simp_all add: round_half_even_def)
  then show ?thesis by (simp add: to_double_finite)
qed

lemma round_double_nat:
  assumes "i < 2 ^ 53"
  shows "round_double (real i) = real i"
proof (cases "i = 0")
  case True
  then show ?thesis by (simp add: round_double_zero)
next
  case False
  then have i1: "2 powi (-1022) \<le> \<bar>real i\<bar>"
  proof -
    have "(2::real) powi (-1022) \<le> 2 powi 0" by (intro power_int_increasing) simp_all
    also have "\<dots> \<le> \<bar>real i\<bar>" using False by simp
    finally show ?thesis .
  qed
  have i2: "\<bar>real i\<bar> < 2 powi 1024"
  proof -
    have "real i < 2 ^ 53" using assms by (metis of_nat_less_iff of_nat_numeral of_nat_power)
    also have "\<dots> < (2::real) ^ 1024" by (intro power_strict_increasing) simp_all
    finally show ?thesis by simp
  qed
  note b = binade_normal[OF i1 i2]
  define k where "k = binade (real i)"
  have k52: "k \<le> 52"
  proof (rule ccontr)
    assume "\<not> k \<le> 52"
    then have "53 \<le> k" by simp
    then have "(2::real) powi 53 \<le> 2 powi k" by (intro power_int_increasing) simp_all
    also have "\<dots> \<le> real i" using b(3) by (simp add: k_def)
    finally have "(2::real) ^ 53 \<le> real i" by simp
    moreover have "real i < 2 ^ 53" using assms by (metis of_nat_less_iff of_nat_numeral of_nat_power)
    ultimately show False by linarith
  qed
  define n where "n = nat (52 - k)"
  have e: "max (k - 52) (-1074) = - int n" using b(1) k52 by (simp add: k_def n_def)
  have "real i / 2 powi (- int n) = real_of_int (int i * 2 ^ n)"
    by (simp add: power_int_minus divide_inverse)
  then have "round_half_even (real i / 2 powi (- int n)) = int i * 2 ^ n"
    by (simp only: round_half_even_of_int)
  then have "round_double (real i) = real_of_int (int i * 2 ^ n) * 2 powi (- int n)"
    unfolding round_double_def Let_def k_def[symmetric] e by simp
  also have "\<dots> = real i" by (simp add: power_int_minus)
  finally show ?thesis .
qed

lemma int_to_float_exact:
  assumes "i < 2 ^ 53"
  shows "int_to_float i = Finite (real i)"
proof -
  have "real i < 2 ^ 53" using assms by (metis of_nat_less_iff of_nat_numeral of_nat_power)
  also have "\<dots> < (2::real) ^ 1024" by (intro power_strict_increasing) simp_all
  finally show ?thesis
    by (simp add: int_to_float_def to_double_finite round_double_nat[OF assms])
qed

lemma stamp_first: "float_mul (int_to_float 0) (to_double (1 / 100)) = Finite 0"
  by (simp add: int_to_float_exact to_double_hundredth to_double_zero)

lemma stamp_second:
  "float_mul (int_to_float 1) (to_double (1 / 100)) = Finite (5764607523034235 / 2 ^ 59)"
  using to_double_stamp_1 by (simp add: int_to_float_exact[of 1, simplified] to_double_hundredth)

lemma two_roundings:
  fixes s q t n u :: real
  assumes "\<bar>s - q\<bar> \<le> q * u" and "\<bar>t - n * s\<bar> \<le> (n * s) * u"
    and "0 \<le> n" and "0 \<le> q" and "0 \<le> u"
  shows "\<bar>t - n * q\<bar> \<le> (2 * u + u * u) * (n * q)"
proof -
  have s: "s \<le> q * (1 + u)" using assms(1) by (simp add: algebra_simps abs_le_iff)
  have "n * s \<le> n * (q * (1 + u))" using s assms(3) by (rule mult_left_mono)
  then have 1: "(n * s) * u \<le> (n * (q * (1 + u))) * u" using assms(5) by (rule mult_right_mono)
  have "\<bar>n * s - n * q\<bar> = n * \<bar>s - q\<bar>" using assms(3) by (simp flip: right_diff_distrib add: abs_mult)
  also have "\<dots> \<le> n * (q * u)" using assms(1,3) by (rule mult_left_mono)
  finally have 2: "\<bar>n * s - n * q\<bar> \<le> n * (q * u)" .
  have "\<bar>t - n * q\<bar> \<le> \<bar>t - n * s\<bar> + \<bar>n * s - n * q\<bar>" by linarith
  also have "\<dots> \<le> (n * (q * (1 + u))) * u + n * (q * u)" using assms(2) 1 2 by linarith
  also have "\<dots> = (2 * u + u * u) * (n * q)" by (simp add: algebra_simps)
  finally show ?thesis .
qed

lemma stamp_error:
  assumes fs1: "(1 / 2) ^ 900 \<le> fs" and fs2: "fs \<le> 2 ^ 900" and i: "i < 2 ^ 53"
  shows "\<exists>t. float_mul (int_to_float i) (to_double (1 / fs)) = Finite t \<and>
             \<bar>t - real i / fs\<bar> \<le> (2 / 2 ^ 53 + 1 / 2 ^ 106) * (real i / fs)"
proof -
  define q where "q = 1 / fs"
  define u :: real where "u = 1 / 2 ^ 53"
  have h0: "(0::real) < (1 / 2) ^ 900" and h1: "(0::real) < (1 / 2) ^ 901"
    by (rule zero_less_power; simp)+
  have fs0: "0 < fs" using fs1 h0 by linarith
  have q0: "0 < q" using fs0 by (simp add: q_def)
  have qlo: "(1 / 2) ^ 900 \<le> q"
  proof -
    have "1 / 2 ^ 900 \<le> 1 / fs" using fs0 fs2 by (intro divide_left_mono) simp_all
    then show ?thesis by (simp add: q_def power_one_over)
  qed
  have qhi: "q \<le> 2 ^ 900"
  proof -
    have "1 / fs \<le> 1 / (1 / 2) ^ 900" using fs1 fs0 by (intro divide_left_mono mult_pos_pos) simp_all
    then show ?thesis by (simp add: q_def power_one_over)
  qed
  have u0: "0 \<le> u" and u1: "u \<le> 1" by (simp_all add: u_def)
  have p1: "(2::real) powi (-1022) \<le> (1 / 2) ^ 901"
  proof -
    have "(2::real) powi (-1022) \<le> 2 powi (-901)" by (intro power_int_increasing) simp_all
    then show ?thesis by (simp add: power_int_minus power_one_over inverse_eq_divide)
  qed
  have p0: "(1 / 2 :: real) ^ 901 \<le> (1 / 2) ^ 900" by (intro power_decreasing) simp_all
  have p2: "(2::real) ^ 900 < 2 ^ 1024" by (intro power_strict_increasing) simp_all
  have qn1: "2 powi (-1022) \<le> \<bar>q\<bar>" using p1 p0 qlo q0 by linarith
  have qn2: "\<bar>q\<bar> < 2 powi 1024" using qhi p2 q0 by simp
  define s where "s = round_double q"
  have se: "\<bar>s - q\<bar> \<le> q * u"
    using round_double_error[OF qn1 qn2] q0 by (simp add: s_def u_def)
  have slo: "(1 / 2) ^ 901 \<le> s"
  proof -
    have "q * u \<le> q * (1 / 2)" using q0 by (intro mult_left_mono) (simp_all add: u_def)
    with se have "q / 2 \<le> s" by (simp add: abs_le_iff)
    moreover have "(1 / 2 :: real) ^ 901 = (1 / 2) ^ 900 / 2"
      using power_Suc[of "1 / 2 :: real" 900] by simp
    ultimately show ?thesis using qlo by linarith
  qed
  have shi: "s \<le> 2 ^ 901"
  proof -
    have "q * u \<le> q * 1" using q0 u1 by (intro mult_left_mono) simp_all
    with se have "s \<le> 2 * q" by (simp add: abs_le_iff)
    moreover have "(2::real) ^ 901 = 2 * 2 ^ 900"
      using power_Suc[of "2::real" 900] by simp
    ultimately show ?thesis using qhi by linarith
  qed
  have s0: "0 < s" using slo h1 by linarith
  have "(2::real) ^ 901 < 2 ^ 1024" by (intro power_strict_increasing) simp_all
  with shi s0 have "\<bar>round_double q\<bar> < 2 ^ 1024" by (simp add: s_def)
  then have qd: "to_double q = Finite s" by (simp add: to_double_finite s_def)
  have id: "int_to_float i = Finite (real i)" using i by (rule int_to_float_exact)
  have m: "float_mul (int_to_float i) (to_double (1 / fs)) = to_double (real i * s)"
    by (simp add: id qd q_def[symmetric])
  show ?thesis
  proof (cases "i = 0")
    case True
    then show ?thesis using m by (simp add: to_double_zero)
  next
    case False
    then have i1: "1 \<le> real i" by simp
    have ihi: "real i < 2 ^ 53" using i by (metis of_nat_less_iff of_nat_numeral of_nat_power)
    define p where "p = real i * s"
    have plo: "s \<le> p" using i1 s0 by (simp add: p_def)
    have phi: "p \<le> 2 ^ 53 * 2 ^ 901"
      unfolding p_def using ihi shi s0 by (intro mult_mono) simp_all
    have p954: "(2::real) ^ 53 * 2 ^ 901 = 2 ^ 954" by (simp flip: power_add)
    have p954': "(2::real) ^ 954 < 2 ^ 1023" by (intro power_strict_increasing) simp_all
    have p1023: "(2::real) ^ 1023 < 2 ^ 1024" by (intro power_strict_increasing) simp_all
    have pp: "0 < p" using plo s0 by linarith
    have pn1: "2 powi (-1022) \<le> \<bar>p\<bar>" using p1 slo plo pp by linarith
    have pn2: "\<bar>p\<bar> < 2 powi 1024" using phi p954 p954' p1023 pp by simp
    define t where "t = round_double p"
    have te: "\<bar>t - p\<bar> \<le> p * u"
      using round_double_error[OF pn1 pn2] pp by (simp add: t_def u_def)
    have "p * u \<le> p * 1" using pp u1 by (intro mult_left_mono) simp_all
    with te have "\<bar>t\<bar> \<le> 2 * p" by (simp add: abs_le_iff)
    also have "\<dots> < 2 * 2 ^ 1023" using phi p954 p954' by simp
    also have "\<dots> = (2::real) ^ 1024"
      using power_Suc[of "2::real" 1023] by simp
    finally have "to_double p = Finite t" by (simp add: to_double_finite t_def)
    with m have st: "float_mul (int_to_float i) (to_double (1 / fs)) = Finite t"
      by (simp add: p_def)
    have "\<bar>t - real i * q\<bar> \<le> (2 * u + u * u) * (real i * q)"
      using se te q0 u0 by (intro two_roundings[where s = s]) (simp_all add: p_def)
    moreover have "2 * u + u * u = 2 / 2 ^ 53 + 1 / 2 ^ 106" by (simp add: u_def)
    ultimately have "\<bar>t - real i / fs\<bar> \<le> (2 / 2 ^ 53 + 1 / 2 ^ 106) * (real i / fs)"
      by (simp add: q_def)
    with st show ?thesis by blast
  qed
qed

section \<open>Properties of the generator\<close>

lemma yield_all_length_le: "length (fst (yield_all s xs)) \<le> length xs"
  by (induction s xs rule: yield_all.induct) (auto split: sum.splits prod.splits)

lemma yield_all_nth:
  "k < length (fst (yield_all s xs)) \<Longrightarrow>
   (case xs ! k of (i, g, a, p, q) \<Rightarrow> make_measurement s i g a p q) = Inr (fst (yield_all s xs) ! k)"
proof (induction s xs arbitrary: k rule: yield_all.induct)
  case (1 s)
  then show ?case by simp
next
  case (2 s i g a p q rest)
  show ?case
  proof (cases "make_measurement s i g a p q")
    case (Inl e)
    with 2(2) show ?thesis by simp
  next
    case (Inr m)
    show ?thesis
    proof (cases k)
      case 0
      with Inr show ?thesis by (simp split: prod.splits)
    next
      case (Suc j)
      with 2(2) Inr have "j < length (fst (yield_all s rest))"
        by (simp split: prod.splits)
      from 2(1)[OF Inr this] Suc Inr show ?thesis
        by (simp split: prod.splits)
    qed
  qed
qed

lemma yield_all_complete:
  "(\<forall>x \<in> set xs. case x of (i, g, a, p, q) \<Rightarrow>
      3 \<le> length g \<and> 3 \<le> length a \<and> 3 \<le> length p \<and> 4 \<le> length q) \<Longrightarrow>
   length (fst (yield_all s xs)) = length xs \<and> snd (yield_all s xs) = None"
  by (induction s xs rule: yield_all.induct)
     (auto simp: make_measurement_def split: sum.splits prod.splits)

lemma zipped_wide:
  assumes "rows_wide_enough sim"
  shows "\<forall>x \<in> set (enumerate 0 (zip (gyro sim) (zip (accel sim) (zip (ref_pos sim) (ref_att_quat sim))))).
           case x of (i, g, a, p, q) \<Rightarrow> 3 \<le> length g \<and> 3 \<le> length a \<and> 3 \<le> length p \<and> 4 \<le> length q"
  using assms
  by (auto simp: rows_wide_enough_def list_all_iff in_set_enumerate_eq dest!: set_zip_leftD set_zip_rightD)

lemma gen_complete:
  assumes "fs_imu \<noteq> 0" and "rows_wide_enough sim"
  shows "length (fst (get_gnss_ins_sim sim fs_imu)) =
           min (min (length (gyro sim)) (length (accel sim)))
               (min (length (ref_pos sim)) (length (ref_att_quat sim)))"
    and "snd (get_gnss_ins_sim sim fs_imu) = None"
  using assms yield_all_complete[OF zipped_wide[OF assms(2)], of "to_double (1 / fs_imu)"]
  by (simp_all add: get_gnss_ins_sim_def float_div_def min.assoc)

lemma gen_nth:
  assumes "k < length (fst (get_gnss_ins_sim sim fs_imu))"
  shows "fs_imu \<noteq> 0"
    and "k < length (gyro sim)" and "k < length (accel sim)"
    and "k < length (ref_pos sim)" and "k < length (ref_att_quat sim)"
    and "make_measurement (to_double (1 / fs_imu)) k (gyro sim ! k) (accel sim ! k) (ref_pos sim ! k) (ref_att_quat sim ! k)
         = Inr (fst (get_gnss_ins_sim sim fs_imu) ! k)"
proof -
  let ?xs = "enumerate 0 (zip (gyro sim) (zip (accel sim) (zip (ref_pos sim) (ref_att_quat sim))))"
  show nz: "fs_imu \<noteq> 0" using assms by (auto simp: get_gnss_ins_sim_def float_div_def)
  then have eq: "get_gnss_ins_sim sim fs_imu = yield_all (to_double (1 / fs_imu)) ?xs"
    by (simp add: get_gnss_ins_sim_def float_div_def)
  with assms have k: "k < length (fst (yield_all (to_double (1 / fs_imu)) ?xs))" by simp
  with yield_all_length_le[of "to_double (1 / fs_imu)" ?xs] have kz: "k < length ?xs" by linarith
  then show "k < length (gyro sim)" "k < length (accel sim)"
       "k < length (ref_pos sim)" "k < length (ref_att_quat sim)" by simp_all
  from kz have "?xs ! k = (k, gyro sim ! k, accel sim ! k, ref_pos sim ! k, ref_att_quat sim ! k)"
    by (simp add: nth_enumerate_eq)
  with yield_all_nth[OF k] eq
  show "make_measurement (to_double (1 / fs_imu)) k (gyro sim ! k) (accel sim ! k) (ref_pos sim ! k) (ref_att_quat sim ! k)
         = Inr (fst (get_gnss_ins_sim sim fs_imu) ! k)" by simp
qed

lemma yield_all_error:
  "snd (yield_all s xs) = Some e \<Longrightarrow>
   e = IndexError \<and> length (fst (yield_all s xs)) < length xs \<and>
   (case xs ! length (fst (yield_all s xs)) of (i, g, a, p, q) \<Rightarrow> make_measurement s i g a p q) = Inl IndexError"
proof (induction s xs rule: yield_all.induct)
  case (1 s)
  then show ?case by simp
next
  case (2 s i g a p q rest)
  show ?case
  proof (cases "make_measurement s i g a p q")
    case (Inl e')
    then have "e' = IndexError" by (simp add: make_measurement_def split: if_splits)
    with Inl 2(2) show ?thesis by simp
  next
    case (Inr m)
    obtain ms e' where r: "yield_all s rest = (ms, e')" by (cases "yield_all s rest")
    with 2(2) Inr have "snd (yield_all s rest) = Some e" by simp
    from 2(1)[OF Inr this] Inr r show ?thesis by simp
  qed
qed

lemma gen_nth_record:
  assumes "k < length (fst (get_gnss_ins_sim sim fs_imu))"
  shows "3 \<le> length (gyro sim ! k)" and "3 \<le> length (accel sim ! k)"
    and "3 \<le> length (ref_pos sim ! k)" and "4 \<le> length (ref_att_quat sim ! k)"
    and "fst (get_gnss_ins_sim sim fs_imu) ! k =
           \<lparr>stamp = float_mul (int_to_float k) (to_double (1 / fs_imu)),
            data = \<lparr>gyro_x = gyro sim ! k ! 0, gyro_y = gyro sim ! k ! 1, gyro_z = gyro sim ! k ! 2,
                    accel_x = accel sim ! k ! 0, accel_y = accel sim ! k ! 1, accel_z = accel sim ! k ! 2,
                    ref_pos_x = ref_pos sim ! k ! 0, ref_pos_y = ref_pos sim ! k ! 1,
                    ref_pos_z = ref_pos sim ! k ! 2,
                    q0 = ref_att_quat sim ! k ! 0, q1 = ref_att_quat sim ! k ! 1,
                    q2 = ref_att_quat sim ! k ! 2, q3 = ref_att_quat sim ! k ! 3\<rparr>\<rparr>"
  using gen_nth(6)[OF assms]
  by (simp_all add: make_measurement_def split: if_splits)

lemma gen_error:
  assumes "snd (get_gnss_ins_sim sim fs) = Some IndexError"
  shows "length (fst (get_gnss_ins_sim sim fs)) < length (gyro sim)"
    and "length (fst (get_gnss_ins_sim sim fs)) < length (accel sim)"
    and "length (fst (get_gnss_ins_sim sim fs)) < length (ref_pos sim)"
    and "length (fst (get_gnss_ins_sim sim fs)) < length (ref_att_quat sim)"
    and "length (gyro sim ! length (fst (get_gnss_ins_sim sim fs))) < 3 \<or>
         length (accel sim ! length (fst (get_gnss_ins_sim sim fs))) < 3 \<or>
         length (ref_pos sim ! length (fst (get_gnss_ins_sim sim fs))) < 3 \<or>
         length (ref_att_quat sim ! length (fst (get_gnss_ins_sim sim fs))) < 4"
proof -
  let ?xs = "enumerate 0 (zip (gyro sim) (zip (accel sim) (zip (ref_pos sim) (ref_att_quat sim))))"
  let ?n = "length (fst (get_gnss_ins_sim sim fs))"
  from assms have nz: "fs \<noteq> 0" by (auto simp: get_gnss_ins_sim_def float_div_def)
  then have eq: "get_gnss_ins_sim sim fs = yield_all (to_double (1 / fs)) ?xs"
    by (simp add: get_gnss_ins_sim_def float_div_def)
  with assms have "snd (yield_all (to_double (1 / fs)) ?xs) = Some IndexError" by simp
  from yield_all_error[OF this] eq
  have n: "?n < length ?xs"
    and bad: "(case ?xs ! ?n of (i, g, a, p, q) \<Rightarrow> make_measurement (to_double (1 / fs)) i g a p q) = Inl IndexError"
    by simp_all
  from n show "?n < length (gyro sim)" "?n < length (accel sim)"
    "?n < length (ref_pos sim)" "?n < length (ref_att_quat sim)" by simp_all
  from n have "?xs ! ?n = (?n, gyro sim ! ?n, accel sim ! ?n, ref_pos sim ! ?n, ref_att_quat sim ! ?n)"
    by (simp add: nth_enumerate_eq)
  with bad show "length (gyro sim ! ?n) < 3 \<or> length (accel sim ! ?n) < 3 \<or>
         length (ref_pos sim ! ?n) < 3 \<or> length (ref_att_quat sim ! ?n) < 4"
    by (simp add: make_measurement_def split: if_splits)
qed

lemma gen_empty:
  assumes "fs \<noteq> 0" and "gyro sim = [] \<or> accel sim = [] \<or> ref_pos sim = [] \<or> ref_att_quat sim = []"
  shows "get_gnss_ins_sim sim fs = ([], None)"
  using assms by (auto simp: get_gnss_ins_sim_def float_div_def)

lemma yield_all_first_short:
  assumes "n < length xs"
    and "\<forall>j<n. case xs ! j of (i, g, a, p, q) \<Rightarrow>
           3 \<le> length g \<and> 3 \<le> length a \<and> 3 \<le> length p \<and> 4 \<le> length q"
    and "case xs ! n of (i, g, a, p, q) \<Rightarrow>
           length g < 3 \<or> length a < 3 \<or> length p < 3 \<or> length q < 4"
  shows "length (fst (yield_all s xs)) = n \<and> snd (yield_all s xs) = Some IndexError"
  using assms
proof (induction s xs arbitrary: n rule: yield_all.induct)
  case (1 s)
  then show ?case by simp
next
  case (2 s i g a p q rest)
  show ?case
  proof (cases n)
    case 0
    with 2(4) show ?thesis by (simp add: make_measurement_def)
  next
    case (Suc n')
    from 2(3) Suc have "3 \<le> length g \<and> 3 \<le> length a \<and> 3 \<le> length p \<and> 4 \<le> length q"
      by (auto dest: spec[of _ 0])
    then obtain m where m: "make_measurement s i g a p q = Inr m"
      by (auto simp: make_measurement_def)
    have "length (fst (yield_all s rest)) = n' \<and> snd (yield_all s rest) = Some IndexError"
    proof (rule 2(1)[OF m])
      show "n' < length rest" using 2(2) Suc by simp
      show "\<forall>j<n'. case rest ! j of (i, g, a, p, q) \<Rightarrow>
           3 \<le> length g \<and> 3 \<le> length a \<and> 3 \<le> length p \<and> 4 \<le> length q"
      proof (intro allI impI)
        fix j assume "j < n'"
        then have "Suc j < n" using Suc by simp
        with 2(3) show "case rest ! j of (i, g, a, p, q) \<Rightarrow>
           3 \<le> length g \<and> 3 \<le> length a \<and> 3 \<le> length p \<and> 4 \<le> length q"
          by (auto dest!: spec[of _ "Suc j"])
      qed
      show "case rest ! n' of (i, g, a, p, q) \<Rightarrow>
           length g < 3 \<or> length a < 3 \<or> length p < 3 \<or> length q < 4"
        using 2(4) Suc by simp
    qed
    with m Suc show ?thesis by (cases "yield_all s rest") simp
  qed
qed

lemma gen_first_short:
  assumes "fs \<noteq> 0"
    and "n < length (gyro sim)" and "n < length (accel sim)"
    and "n < length (ref_pos sim)" and "n < length (ref_att_quat sim)"
    and "\<forall>j<n. 3 \<le> length (gyro sim ! j) \<and> 3 \<le> length (accel sim ! j) \<and>
               3 \<le> length (ref_pos sim ! j) \<and> 4 \<le> length (ref_att_quat sim ! j)"
    and "length (gyro sim ! n) < 3 \<or> length (accel sim ! n) < 3 \<or>
         length (ref_pos sim ! n) < 3 \<or> length (ref_att_quat sim ! n) < 4"
  shows "length (fst (get_gnss_ins_sim sim fs)) = n \<and> snd (get_gnss_ins_sim sim fs) = Some IndexError"
proof -
  let ?xs = "enumerate 0 (zip (gyro sim) (zip (accel sim) (zip (ref_pos sim) (ref_att_quat sim))))"
  have eq: "get_gnss_ins_sim sim fs = yield_all (to_double (1 / fs)) ?xs"
    using assms(1) by (simp add: get_gnss_ins_sim_def float_div_def)
  have n: "n < length ?xs" using assms(2-5) by simp
  have nth: "\<And>j. j \<le> n \<Longrightarrow>
      ?xs ! j = (j, gyro sim ! j, accel sim ! j, ref_pos sim ! j, ref_att_quat sim ! j)"
    using n by (simp add: nth_enumerate_eq)
  have "length (fst (yield_all (to_double (1 / fs)) ?xs)) = n \<and>
        snd (yield_all (to_double (1 / fs)) ?xs) = Some IndexError"
  proof (rule yield_all_first_short[OF n])
    show "\<forall>j<n. case ?xs ! j of (i, g, a, p, q) \<Rightarrow>
           3 \<le> length g \<and> 3 \<le> length a \<and> 3 \<le> length p \<and> 4 \<le> length q"
      using assms(6) nth by simp
    show "case ?xs ! n of (i, g, a, p, q) \<Rightarrow>
           length g < 3 \<or> length a < 3 \<or> length p < 3 \<or> length q < 4"
      using assms(7) nth[of n] by simp
  qed
  with eq show ?thesis by simp
qed

lemma scenario_F_wide: "rows_wide_enough scenario_F"
  by (simp add: rows_wide_enough_def scenario_F_def list_all_iff)

section \<open>The claims about the generator\<close>

text \<open>
  C1. When the gyro and accel series have the same length and the position and quaternion
  series have the same length (the frequency is not zero, the rows are wide enough), the
  generator yields exactly min (length of the gyro series) (length of the position series)
  measurements; for 1000 gyro samples and 10 position samples it yields 10.
\<close>

theorem emitted_length_gyro_pos:
  assumes "fs_imu \<noteq> 0" and "rows_wide_enough sim"
    and "length (gyro sim) = length (accel sim)"
    and "length (ref_pos sim) = length (ref_att_quat sim)"
  shows "length (fst (get_gnss_ins_sim sim fs_imu)) = min (length (gyro sim)) (length (ref_pos sim))"
  using gen_complete(1)[OF assms(1,2)] assms(3,4) by simp

theorem emitted_length_gyro_pos_witness:
  "(100::real) \<noteq> 0 \<and> rows_wide_enough scenario_B \<and>
   length (gyro scenario_B) = length (accel scenario_B) \<and>
   length (ref_pos scenario_B) = length (ref_att_quat scenario_B) \<and>
   length (gyro scenario_B) = 1000 \<and> length (ref_pos scenario_B) = 10 \<and>
   length (fst (get_gnss_ins_sim scenario_B 100)) = 10"
proof -
  have w: "rows_wide_enough scenario_B"
    by (simp add: rows_wide_enough_def scenario_B_def list_all_iff)
  have l1: "length (gyro scenario_B) = length (accel scenario_B)"
    and l2: "length (ref_pos scenario_B) = length (ref_att_quat scenario_B)"
    by (simp_all add: scenario_B_def)
  have nz: "(100::real) \<noteq> 0" by simp
  from emitted_length_gyro_pos[OF nz w l1 l2] w show ?thesis
    by (simp add: scenario_B_def)
qed

text \<open>
  C4, as stated, fails: at 100 Hz the record at index 35 has the stamp
  6305039478318695 / 2 ^ 54, in decimal 0.35000000000000003, which is neither 35 / 100 nor
  the double that 35 / 100 rounds to.
\<close>

theorem stamp_not_exact_quotient:
  "stamp (fst (get_gnss_ins_sim scenario_F 100) ! 35) = Finite (6305039478318695 / 2 ^ 54) \<and>
   to_double (35 / 100) = Finite (6305039478318694 / 2 ^ 54) \<and>
   (6305039478318695 / 2 ^ 54 :: real) \<noteq> 35 / 100"
proof -
  have "length (fst (get_gnss_ins_sim scenario_F 100)) = 36"
    using gen_complete(1)[OF _ scenario_F_wide, of 100] by (simp add: scenario_F_def)
  then have k: "35 < length (fst (get_gnss_ins_sim scenario_F 100))" by simp
  have "stamp (fst (get_gnss_ins_sim scenario_F 100) ! 35) =
          float_mul (int_to_float 35) (to_double (1 / 100))"
    using gen_nth_record(5)[OF k] by simp
  also have "\<dots> = to_double (35 * (5764607523034235 / 2 ^ 59))"
    by (simp add: int_to_float_exact to_double_hundredth)
  also have "\<dots> = Finite (6305039478318695 / 2 ^ 54)" by (rule to_double_stamp_35)
  finally show ?thesis using to_double_035 by simp
qed

text \<open>
  C4, amended. The record at index i, counted from 0, has as its stamp the double product
  of i and the double quotient 1.0 / fs_imu. It is computed from the index alone, nothing is
  accumulated: for a frequency between 2 ^ -900 and 2 ^ 900 and an index below 2 ^ 53 the
  stamp is finite and differs from i / fs_imu by at most the two roundings, a relative
  error of at most 2 ^ -52 + 2 ^ -106 whatever the index. Two samples at 100 Hz have the
  stamps 0.0 and 0.01, the double nearest to 1 / 100.
\<close>

theorem stamp_from_index:
  assumes "i < length (fst (get_gnss_ins_sim sim fs_imu))"
  shows "stamp (fst (get_gnss_ins_sim sim fs_imu) ! i) =
           float_mul (int_to_float i) (to_double (1 / fs_imu)) \<and>
         ((1 / 2) ^ 900 \<le> fs_imu \<and> fs_imu \<le> 2 ^ 900 \<and> i < 2 ^ 53 \<longrightarrow>
            (\<exists>t. stamp (fst (get_gnss_ins_sim sim fs_imu) ! i) = Finite t \<and>
                 \<bar>t - real i / fs_imu\<bar> \<le> (2 / 2 ^ 53 + 1 / 2 ^ 106) * (real i / fs_imu)))"
proof -
  have s: "stamp (fst (get_gnss_ins_sim sim fs_imu) ! i) =
             float_mul (int_to_float i) (to_double (1 / fs_imu))"
    using gen_nth_record(5)[OF assms] by simp
  show ?thesis unfolding s using stamp_error[of fs_imu i] by blast
qed

theorem stamp_from_index_witness:
  "length (fst (get_gnss_ins_sim scenario_A 100)) = 2 \<and>
   (1 / 2) ^ 900 \<le> (100::real) \<and> (100::real) \<le> 2 ^ 900 \<and> (1::nat) < 2 ^ 53 \<and>
   map stamp (fst (get_gnss_ins_sim scenario_A 100)) = [Finite 0, Finite (5764607523034235 / 2 ^ 59)] \<and>
   \<bar>5764607523034235 / 2 ^ 59 - 1 / 100\<bar> \<le> (2 / 2 ^ 53 + 1 / 2 ^ 106) * (1 / (100::real))"
proof -
  let ?ms = "fst (get_gnss_ins_sim scenario_A 100)"
  have len: "length ?ms = 2"
    by (simp add: get_gnss_ins_sim_def float_div_def scenario_A_def make_measurement_def)
  then have k0: "0 < length ?ms" and k1: "1 < length ?ms" by simp_all
  have r1: "(1 / 2) ^ 900 \<le> (100::real)"
  proof -
    have "(1 / 2 :: real) ^ 900 \<le> 1" by (intro power_le_one) simp_all
    then show ?thesis by linarith
  qed
  have r2: "(100::real) \<le> 2 ^ 900"
  proof -
    have "(2::real) ^ 7 \<le> 2 ^ 900" by (intro power_increasing) simp_all
    then show ?thesis by simp
  qed
  have r3: "(1::nat) < 2 ^ 53" by simp
  from stamp_from_index[OF k0] have s0: "stamp (?ms ! 0) = Finite 0"
    by (simp add: stamp_first)
  note T = stamp_from_index[OF k1]
  from T have s1: "stamp (?ms ! 1) = Finite (5764607523034235 / 2 ^ 59)"
    using stamp_second by simp
  from T r1 r2 r3 have "\<exists>t. stamp (?ms ! 1) = Finite t \<and>
            \<bar>t - real 1 / 100\<bar> \<le> (2 / 2 ^ 53 + 1 / 2 ^ 106) * (real 1 / 100)"
    by blast
  then obtain t where t: "stamp (?ms ! 1) = Finite t"
    and bt: "\<bar>t - real 1 / 100\<bar> \<le> (2 / 2 ^ 53 + 1 / 2 ^ 106) * (real 1 / 100)"
    by blast
  from t s1 have "t = 5764607523034235 / 2 ^ 59" by simp
  with bt have b: "\<bar>5764607523034235 / 2 ^ 59 - 1 / 100\<bar> \<le> (2 / 2 ^ 53 + 1 / 2 ^ 106) * (1 / (100::real))"
    by simp
  from len s0 s1 have "map stamp ?ms = [Finite 0, Finite (5764607523034235 / 2 ^ 59)]"
    by (simp add: list_eq_iff_nth_eq less_Suc_eq numeral_2_eq_2)
  with len r1 r2 r3 b show ?thesis by blast
qed

text \<open>
  C9. The generator zips four series: with no assumption on their lengths (the frequency is
  not zero, the rows are wide enough) the number of measurements it yields is the minimum
  of the four lengths, so that a shorter accel series or a shorter quaternion series cuts
  the output as well.
\<close>

theorem emitted_length_four_series:
  assumes "fs_imu \<noteq> 0" and "rows_wide_enough sim"
  shows "length (fst (get_gnss_ins_sim sim fs_imu)) =
           min (min (length (gyro sim)) (length (accel sim)))
               (min (length (ref_pos sim)) (length (ref_att_quat sim)))"
  using assms by (rule gen_complete(1))

theorem emitted_length_four_series_witness:
  "(100::real) \<noteq> 0 \<and> rows_wide_enough scenario_short_accel \<and> rows_wide_enough scenario_short_quat \<and>
   length (gyro scenario_short_accel) = 3 \<and> length (ref_pos scenario_short_accel) = 3 \<and>
   length (fst (get_gnss_ins_sim scenario_short_accel 100)) = 2 \<and>
   length (gyro scenario_short_quat) = 3 \<and> length (ref_pos scenario_short_quat) = 3 \<and>
   length (fst (get_gnss_ins_sim scenario_short_quat 100)) = 1"
proof -
  have w1: "rows_wide_enough scenario_short_accel"
    by (simp add: rows_wide_enough_def scenario_short_accel_def list_all_iff)
  have w2: "rows_wide_enough scenario_short_quat"
    by (simp add: rows_wide_enough_def scenario_short_quat_def list_all_iff)
  have nz: "(100::real) \<noteq> 0" by simp
  have "length (fst (get_gnss_ins_sim scenario_short_accel 100)) = 2"
    using emitted_length_four_series[OF nz w1] by (simp add: scenario_short_accel_def)
  moreover have "length (fst (get_gnss_ins_sim scenario_short_quat 100)) = 1"
    using emitted_length_four_series[OF nz w2] by (simp add: scenario_short_quat_def)
  ultimately show ?thesis using w1 w2
    by (simp add: scenario_short_accel_def scenario_short_quat_def)
qed

text \<open>
  C7, as stated, fails: with an empty gyro series the generator raises nothing. It ends as
  on any exhausted zip, with no measurement and no exception.
\<close>

theorem empty_series_no_failure:
  "get_gnss_ins_sim scenario_empty 100 = ([], None)"
  by (simp add: get_gnss_ins_sim_def float_div_def scenario_empty_def)

text \<open>
  C7, amended. The generator validates nothing before it starts. If one of the four series
  is empty (and the frequency is not zero) it ends normally, with no measurement and no
  exception. Every measurement it yields is complete: it is built from rows of the four
  series that are wide enough. It raises IndexError exactly when it reaches an index,
  present in all four series, whose gyro, accel, position or quaternion row is too short:
  if n is the first such index, it yields the measurements of the n indices before it and
  then raises; and when it has raised IndexError, the index after the last measurement is
  such an index.
\<close>

theorem generator_validates_nothing:
  "(fs \<noteq> 0 \<and> (gyro sim = [] \<or> accel sim = [] \<or> ref_pos sim = [] \<or> ref_att_quat sim = []) \<longrightarrow>
      get_gnss_ins_sim sim fs = ([], None)) \<and>
   (\<forall>k < length (fst (get_gnss_ins_sim sim fs)).
      3 \<le> length (gyro sim ! k) \<and> 3 \<le> length (accel sim ! k) \<and>
      3 \<le> length (ref_pos sim ! k) \<and> 4 \<le> length (ref_att_quat sim ! k)) \<and>
   (snd (get_gnss_ins_sim sim fs) = Some IndexError \<longrightarrow>
      length (fst (get_gnss_ins_sim sim fs)) < length (gyro sim) \<and>
      length (fst (get_gnss_ins_sim sim fs)) < length (accel sim) \<and>
      length (fst (get_gnss_ins_sim sim fs)) < length (ref_pos sim) \<and>
      length (fst (get_gnss_ins_sim sim fs)) < length (ref_att_quat sim) \<and>
      (length (gyro sim ! length (fst (get_gnss_ins_sim sim fs))) < 3 \<or>
       length (accel sim ! length (fst (get_gnss_ins_sim sim fs))) < 3 \<or>
       length (ref_pos sim ! length (fst (get_gnss_ins_sim sim fs))) < 3 \<or>
       length (ref_att_quat sim ! length (fst (get_gnss_ins_sim sim fs))) < 4)) \<and>
   (fs \<noteq> 0 \<and> n < length (gyro sim) \<and> n < length (accel sim) \<and>
    n < length (ref_pos sim) \<and> n < length (ref_att_quat sim) \<and>
    (\<forall>j<n. 3 \<le> length (gyro sim ! j) \<and> 3 \<le> length (accel sim ! j) \<and>
           3 \<le> length (ref_pos sim ! j) \<and> 4 \<le> length (ref_att_quat sim ! j)) \<and>
    (length (gyro sim ! n) < 3 \<or> length (accel sim ! n) < 3 \<or>
     length (ref_pos sim ! n) < 3 \<or> length (ref_att_quat sim ! n) < 4) \<longrightarrow>
      length (fst (get_gnss_ins_sim sim fs)) = n \<and>
      snd (get_gnss_ins_sim sim fs) = Some IndexError)"
proof (intro conjI impI allI)
  assume "fs \<noteq> 0 \<and> (gyro sim = [] \<or> accel sim = [] \<or> ref_pos sim = [] \<or> ref_att_quat sim = [])"
  then show "get_gnss_ins_sim sim fs = ([], None)" using gen_empty by blast
next
  fix k assume k: "k < length (fst (get_gnss_ins_sim sim fs))"
  show "3 \<le> length (gyro sim ! k)" "3 \<le> length (accel sim ! k)"
    "3 \<le> length (ref_pos sim ! k)" "4 \<le> length (ref_att_quat sim ! k)"
    using gen_nth_record(1-4)[OF k] by simp_all
next
  assume e: "snd (get_gnss_ins_sim sim fs) = Some IndexError"
  show "length (fst (get_gnss_ins_sim sim fs)) < length (gyro sim)"
    "length (fst (get_gnss_ins_sim sim fs)) < length (accel sim)"
    "length (fst (get_gnss_ins_sim sim fs)) < length (ref_pos sim)"
    "length (fst (get_gnss_ins_sim sim fs)) < length (ref_att_quat sim)"
    "length (gyro sim ! length (fst (get_gnss_ins_sim sim fs))) < 3 \<or>
       length (accel sim ! length (fst (get_gnss_ins_sim sim fs))) < 3 \<or>
       length (ref_pos sim ! length (fst (get_gnss_ins_sim sim fs))) < 3 \<or>
       length (ref_att_quat sim ! length (fst (get_gnss_ins_sim sim fs))) < 4"
    using gen_error[OF e] by blast+
next
  assume h: "fs \<noteq> 0 \<and> n < length (gyro sim) \<and> n < length (accel sim) \<and>
    n < length (ref_pos sim) \<and> n < length (ref_att_quat sim) \<and>
    (\<forall>j<n. 3 \<le> length (gyro sim ! j) \<and> 3 \<le> length (accel sim ! j) \<and>
           3 \<le> length (ref_pos sim ! j) \<and> 4 \<le> length (ref_att_quat sim ! j)) \<and>
    (length (gyro sim ! n) < 3 \<or> length (accel sim ! n) < 3 \<or>
     length (ref_pos sim ! n) < 3 \<or> length (ref_att_quat sim ! n) < 4)"
  have r: "length (fst (get_gnss_ins_sim sim fs)) = n \<and>
      snd (get_gnss_ins_sim sim fs) = Some IndexError"
    by (rule gen_first_short) (use h in blast)+
  from r show "length (fst (get_gnss_ins_sim sim fs)) = n" ..
  from r show "snd (get_gnss_ins_sim sim fs) = Some IndexError" ..
qed


theorem generator_validates_nothing_witness:
  "(100::real) \<noteq> 0 \<and> gyro scenario_empty = [] \<and> get_gnss_ins_sim scenario_empty 100 = ([], None) \<and>
   gyro scenario_ragged = [[1, 2, 3], [4, 5]] \<and> length (accel scenario_ragged) = 2 \<and>
   length (ref_pos scenario_ragged) = 2 \<and> length (ref_att_quat scenario_ragged) = 2 \<and>
   length (fst (get_gnss_ins_sim scenario_ragged 100)) = 1 \<and>
   snd (get_gnss_ins_sim scenario_ragged 100) = Some IndexError \<and>
   3 \<le> length (gyro scenario_ragged ! 0) \<and> length (gyro scenario_ragged ! 1) < 3"
proof -
  have a: "(100::real) \<noteq> 0 \<and> (gyro scenario_empty = [] \<or> accel scenario_empty = [] \<or>
      ref_pos scenario_empty = [] \<or> ref_att_quat scenario_empty = [])"
    by (simp add: scenario_empty_def)
  from generator_validates_nothing[of 100 scenario_empty] a
  have r1: "get_gnss_ins_sim scenario_empty 100 = ([], None)" by blast
  have d: "(100::real) \<noteq> 0 \<and> 1 < length (gyro scenario_ragged) \<and> 1 < length (accel scenario_ragged) \<and>
    1 < length (ref_pos scenario_ragged) \<and> 1 < length (ref_att_quat scenario_ragged) \<and>
    (\<forall>j<1. 3 \<le> length (gyro scenario_ragged ! j) \<and> 3 \<le> length (accel scenario_ragged ! j) \<and>
           3 \<le> length (ref_pos scenario_ragged ! j) \<and> 4 \<le> length (ref_att_quat scenario_ragged ! j)) \<and>
    (length (gyro scenario_ragged ! 1) < 3 \<or> length (accel scenario_ragged ! 1) < 3 \<or>
     length (ref_pos scenario_ragged ! 1) < 3 \<or> length (ref_att_quat scenario_ragged ! 1) < 4)"
    by (simp add: scenario_ragged_def)
  from generator_validates_nothing[of 100 scenario_ragged 1] d
  have n: "length (fst (get_gnss_ins_sim scenario_ragged 100)) = 1"
    and e: "snd (get_gnss_ins_sim scenario_ragged 100) = Some IndexError"
    by blast+
  from n have k: "0 < length (fst (get_gnss_ins_sim scenario_ragged 100))" by simp
  from generator_validates_nothing[of 100 scenario_ragged 1] k
  have r2: "3 \<le> length (gyro scenario_ragged ! 0)" by blast
  from generator_validates_nothing[of 100 scenario_ragged 1] e
  have "length (gyro scenario_ragged ! length (fst (get_gnss_ins_sim scenario_ragged 100))) < 3 \<or>
       length (accel scenario_ragged ! length (fst (get_gnss_ins_sim scenario_ragged 100))) < 3 \<or>
       length (ref_pos scenario_ragged ! length (fst (get_gnss_ins_sim scenario_ragged 100))) < 3 \<or>
       length (ref_att_quat scenario_ragged ! length (fst (get_gnss_ins_sim scenario_ragged 100))) < 4"
    by blast
  then have r3: "length (gyro scenario_ragged ! 1) < 3"
    unfolding n by (simp add: scenario_ragged_def)
  have g0: "gyro scenario_empty = []" by (simp add: scenario_empty_def)
  have f: "gyro scenario_ragged = [[1, 2, 3], [4, 5]]" "length (accel scenario_ragged) = 2"
    "length (ref_pos scenario_ragged) = 2" "length (ref_att_quat scenario_ragged) = 2"
    by (simp_all add: scenario_ragged_def)
  from g0 r1 r2 e n r3 f show ?thesis by simp
qed

section \<open>Properties of the recorder\<close>

lemma calculate_g_total:
  assumes "geo_param_total env"
  shows "\<exists>earth_para.
           geo_param env [ref_pos_x (data m) - xo, ref_pos_y (data m) - yo, ref_pos_z (data m) - zo]
             = Inr earth_para \<and>
           2 < length earth_para \<and> calculate_g env xo yo zo m = Inr (earth_para ! 2)"
proof -
  from assms obtain ep where
    "geo_param env [ref_pos_x (data m) - xo, ref_pos_y (data m) - yo, ref_pos_z (data m) - zo] = Inr ep"
    and "2 < length ep"
    unfolding geo_param_total_def by blast
  then show ?thesis by (simp add: calculate_g_def py_index_def)
qed

lemma record_measurement_started:
  assumes "geo_param_total env" and "idx st \<noteq> 0"
    and "x_ori st = Some xo" and "y_ori st = Some yo" and "z_ori st = Some zo"
  shows "record_measurement env st m = (st\<lparr>bag := bag st @ written env xo yo zo m\<rparr>, None)"
proof -
  from calculate_g_total[OF assms(1), of m xo yo zo] obtain g
    where "calculate_g env xo yo zo m = Inr g" by blast
  with assms(2-5) show ?thesis
    by (simp add: record_measurement_def written_def set_imu_def set_pose_def)
qed

lemma record_measurement_first:
  assumes "geo_param_total env" and "idx st = 0"
  shows "record_measurement env st m =
           (st\<lparr>x_ori := Some (ref_pos_x (data m)), y_ori := Some (ref_pos_y (data m)),
               z_ori := Some (ref_pos_z (data m)), idx := 1,
               bag := bag st @ written env (ref_pos_x (data m)) (ref_pos_y (data m)) (ref_pos_z (data m)) m\<rparr>,
            None)"
proof -
  from calculate_g_total[OF assms(1), of m "ref_pos_x (data m)" "ref_pos_y (data m)" "ref_pos_z (data m)"]
  obtain g where
    "calculate_g env (ref_pos_x (data m)) (ref_pos_y (data m)) (ref_pos_z (data m)) m = Inr g" by blast
  with assms(2) show ?thesis
    by (simp add: record_measurement_def written_def set_imu_def set_pose_def)
qed

lemma recorder_loop_started:
  assumes "geo_param_total env" and "idx st \<noteq> 0"
    and "x_ori st = Some xo" and "y_ori st = Some yo" and "z_ori st = Some zo"
  shows "recorder_loop env st ms = (st\<lparr>bag := bag st @ concat (map (written env xo yo zo) ms)\<rparr>, None)"
  using assms(2-5)
proof (induction ms arbitrary: st)
  case Nil
  then show ?case by simp
next
  case (Cons m ms)
  have "record_measurement env st m = (st\<lparr>bag := bag st @ written env xo yo zo m\<rparr>, None)"
    using record_measurement_started[OF assms(1) Cons.prems] .
  moreover have "recorder_loop env (st\<lparr>bag := bag st @ written env xo yo zo m\<rparr>) ms =
      (st\<lparr>bag := bag st @ written env xo yo zo m\<rparr>
         \<lparr>bag := bag (st\<lparr>bag := bag st @ written env xo yo zo m\<rparr>) @ concat (map (written env xo yo zo) ms)\<rparr>, None)"
    using Cons.prems by (intro Cons.IH) simp_all
  ultimately show ?case by simp
qed

lemma recorder_loop_init:
  assumes "geo_param_total env"
  shows "recorder_loop env init_state (m # ms) =
           (\<lparr>idx = 1, x_ori = Some (ref_pos_x (data m)), y_ori = Some (ref_pos_y (data m)),
             z_ori = Some (ref_pos_z (data m)),
             bag = concat (map (written env (ref_pos_x (data m)) (ref_pos_y (data m)) (ref_pos_z (data m)))
                               (m # ms))\<rparr>, None)"
proof -
  let ?w = "written env (ref_pos_x (data m)) (ref_pos_y (data m)) (ref_pos_z (data m))"
  let ?st1 = "\<lparr>idx = 1, x_ori = Some (ref_pos_x (data m)), y_ori = Some (ref_pos_y (data m)),
               z_ori = Some (ref_pos_z (data m)), bag = ?w m\<rparr> :: 'a rec_state"
  have "record_measurement env init_state m = (?st1, None)"
    using record_measurement_first[OF assms, of init_state m] by (simp add: init_state_def)
  moreover have "recorder_loop env ?st1 ms = (?st1\<lparr>bag := bag ?st1 @ concat (map ?w ms)\<rparr>, None)"
    by (rule recorder_loop_started[OF assms]) simp_all
  ultimately show ?thesis by simp
qed

lemma concat_pairs_nth:
  assumes "\<And>m. length (f m) = 2" and "k < length ms"
  shows "concat (map f ms) ! (2 * k) = f (ms ! k) ! 0"
    and "concat (map f ms) ! (2 * k + 1) = f (ms ! k) ! 1"
  using assms(2)
proof (induction ms arbitrary: k)
  case Nil
  { case 1 then show ?case by simp }
  { case 2 then show ?case by simp }
next
  case (Cons m ms)
  { case 1
    then show ?case using Cons.IH(1)[of "k - 1"] assms(1)[of m]
      by (cases k) (simp_all add: nth_append) }
  { case 2
    then show ?case using Cons.IH(2)[of "k - 1"] assms(1)[of m]
      by (cases k) (simp_all add: nth_append) }
qed

lemma concat_pairs_length:
  assumes "\<And>m. length (f m) = 2"
  shows "length (concat (map f ms)) = 2 * length ms"
  by (induction ms) (simp_all add: assms)

lemma recorder_result:
  assumes "geo_param_total env" and "get_gnss_ins_sim sim fs = (m # ms, e)"
  shows "gnss_ins_sim_recorder env sim fs =
           (\<lparr>idx = 1, x_ori = Some (ref_pos_x (data m)), y_ori = Some (ref_pos_y (data m)),
             z_ori = Some (ref_pos_z (data m)),
             bag = concat (map (written env (ref_pos_x (data m)) (ref_pos_y (data m)) (ref_pos_z (data m)))
                               (m # ms))\<rparr>, e)"
  unfolding gnss_ins_sim_recorder_def assms(2) using recorder_loop_init[OF assms(1), of m ms]
  by simp

lemma first_position:
  assumes "k < length (fst (get_gnss_ins_sim sim fs))"
  shows "ref_pos_x (data (fst (get_gnss_ins_sim sim fs) ! 0)) = ref_pos sim ! 0 ! 0"
    and "ref_pos_y (data (fst (get_gnss_ins_sim sim fs) ! 0)) = ref_pos sim ! 0 ! 1"
    and "ref_pos_z (data (fst (get_gnss_ins_sim sim fs) ! 0)) = ref_pos sim ! 0 ! 2"
proof -
  from assms have "0 < length (fst (get_gnss_ins_sim sim fs))" by linarith
  from gen_nth_record(5)[OF this]
  show "ref_pos_x (data (fst (get_gnss_ins_sim sim fs) ! 0)) = ref_pos sim ! 0 ! 0"
    and "ref_pos_y (data (fst (get_gnss_ins_sim sim fs) ! 0)) = ref_pos sim ! 0 ! 1"
    and "ref_pos_z (data (fst (get_gnss_ins_sim sim fs) ! 0)) = ref_pos sim ! 0 ! 2"
    by simp_all
qed

lemma recorder_entries:
  assumes "geo_param_total env" and "k < length (fst (get_gnss_ins_sim sim fs))"
  shows "bag (fst (gnss_ins_sim_recorder env sim fs)) ! (2 * k) =
           written env (ref_pos sim ! 0 ! 0) (ref_pos sim ! 0 ! 1) (ref_pos sim ! 0 ! 2)
             (fst (get_gnss_ins_sim sim fs) ! k) ! 0"
    and "bag (fst (gnss_ins_sim_recorder env sim fs)) ! (2 * k + 1) =
           written env (ref_pos sim ! 0 ! 0) (ref_pos sim ! 0 ! 1) (ref_pos sim ! 0 ! 2)
             (fst (get_gnss_ins_sim sim fs) ! k) ! 1"
    and "length (bag (fst (gnss_ins_sim_recorder env sim fs))) =
           2 * length (fst (get_gnss_ins_sim sim fs))"
    and "snd (gnss_ins_sim_recorder env sim fs) = snd (get_gnss_ins_sim sim fs)"
proof -
  obtain m ms e where G: "get_gnss_ins_sim sim fs = (m # ms, e)"
    using assms(2) by (cases "get_gnss_ins_sim sim fs"; cases "fst (get_gnss_ins_sim sim fs)") auto
  have o: "ref_pos_x (data m) = ref_pos sim ! 0 ! 0" "ref_pos_y (data m) = ref_pos sim ! 0 ! 1"
    "ref_pos_z (data m) = ref_pos sim ! 0 ! 2"
    using first_position[OF assms(2)] G by simp_all
  let ?w = "written env (ref_pos sim ! 0 ! 0) (ref_pos sim ! 0 ! 1) (ref_pos sim ! 0 ! 2)"
  have R: "bag (fst (gnss_ins_sim_recorder env sim fs)) = concat (map ?w (m # ms))"
    and S: "snd (gnss_ins_sim_recorder env sim fs) = e"
    using recorder_result[OF assms(1) G] o by simp_all
  have len: "\<And>x. length (?w x) = 2" by (simp add: written_def)
  have k: "k < length (m # ms)" using assms(2) G by simp
  show "bag (fst (gnss_ins_sim_recorder env sim fs)) ! (2 * k) = ?w (fst (get_gnss_ins_sim sim fs) ! k) ! 0"
    unfolding R using concat_pairs_nth(1)[of ?w k "m # ms", OF len k] G by simp
  show "bag (fst (gnss_ins_sim_recorder env sim fs)) ! (2 * k + 1) = ?w (fst (get_gnss_ins_sim sim fs) ! k) ! 1"
    unfolding R using concat_pairs_nth(2)[of ?w k "m # ms", OF len k] G by simp
  show "length (bag (fst (gnss_ins_sim_recorder env sim fs))) = 2 * length (fst (get_gnss_ins_sim sim fs))"
    unfolding R using concat_pairs_length[of ?w "m # ms", OF len] G by simp
  show "snd (gnss_ins_sim_recorder env sim fs) = snd (get_gnss_ins_sim sim fs)"
    using S G by simp
qed

lemma env_const_total: "geo_param_total (env_const g)"
  by (simp add: geo_param_total_def env_const_def)

lemma env_varying_total: "geo_param_total env_varying"
  by (simp add: geo_param_total_def env_varying_def)



lemma scenario_C_records:
  "get_gnss_ins_sim scenario_C 100 =
     ([\<lparr>stamp = float_mul (int_to_float 0) (to_double (1 / 100)), data = \<lparr>gyro_x = 0, gyro_y = 0, gyro_z = 0, accel_x = 0, accel_y = 0, accel_z = 0,
          ref_pos_x = 1, ref_pos_y = 2, ref_pos_z = 3, q0 = 1, q1 = 0, q2 = 0, q3 = 0\<rparr>\<rparr>,
       \<lparr>stamp = float_mul (int_to_float 1) (to_double (1 / 100)), data = \<lparr>gyro_x = 0, gyro_y = 0, gyro_z = 0, accel_x = 0, accel_y = 0, accel_z = 0,
          ref_pos_x = 6, ref_pos_y = 2, ref_pos_z = 3, q0 = 1, q1 = 0, q2 = 0, q3 = 0\<rparr>\<rparr>], None)"
  by (simp add: get_gnss_ins_sim_def float_div_def scenario_C_def make_measurement_def)

lemma scenario_D_records:
  "get_gnss_ins_sim scenario_D 100 =
     ([\<lparr>stamp = float_mul (int_to_float 0) (to_double (1 / 100)), data = \<lparr>gyro_x = 1, gyro_y = 2, gyro_z = 3,
          accel_x = 1 / 10, accel_y = 2 / 10, accel_z = 97 / 10,
          ref_pos_x = 4, ref_pos_y = 5, ref_pos_z = 6, q0 = 7, q1 = 8, q2 = 9, q3 = 10\<rparr>\<rparr>], None)"
  by (simp add: get_gnss_ins_sim_def float_div_def scenario_D_def make_measurement_def)

lemma scenario_E_records:
  "get_gnss_ins_sim scenario_E 100 =
     ([\<lparr>stamp = float_mul (int_to_float 0) (to_double (1 / 100)), data = \<lparr>gyro_x = 0, gyro_y = 0, gyro_z = 0, accel_x = 0, accel_y = 0, accel_z = 0,
          ref_pos_x = 1, ref_pos_y = 2, ref_pos_z = 3, q0 = 1, q1 = 0, q2 = 0, q3 = 0\<rparr>\<rparr>,
       \<lparr>stamp = float_mul (int_to_float 1) (to_double (1 / 100)), data = \<lparr>gyro_x = 0, gyro_y = 0, gyro_z = 0, accel_x = 0, accel_y = 0, accel_z = 0,
          ref_pos_x = 2, ref_pos_y = 2, ref_pos_z = 3, q0 = 1, q1 = 0, q2 = 0, q3 = 0\<rparr>\<rparr>], None)"
  by (simp add: get_gnss_ins_sim_def float_div_def scenario_E_def make_measurement_def)

lemma origin_after_prefix:
  assumes "geo_param_total env" and "0 < j" and "j \<le> length ms"
  shows "idx (fst (recorder_loop env init_state (take j ms))) = 1"
    and "x_ori (fst (recorder_loop env init_state (take j ms))) = Some (ref_pos_x (data (ms ! 0)))"
    and "y_ori (fst (recorder_loop env init_state (take j ms))) = Some (ref_pos_y (data (ms ! 0)))"
    and "z_ori (fst (recorder_loop env init_state (take j ms))) = Some (ref_pos_z (data (ms ! 0)))"
proof -
  from assms(2,3) obtain m ms' where ms: "ms = m # ms'" by (cases ms) auto
  from assms(2) obtain j' where j: "j = Suc j'" by (cases j) auto
  have t: "take j ms = m # take j' ms'" by (simp add: ms j)
  show "idx (fst (recorder_loop env init_state (take j ms))) = 1"
    and "x_ori (fst (recorder_loop env init_state (take j ms))) = Some (ref_pos_x (data (ms ! 0)))"
    and "y_ori (fst (recorder_loop env init_state (take j ms))) = Some (ref_pos_y (data (ms ! 0)))"
    and "z_ori (fst (recorder_loop env init_state (take j ms))) = Some (ref_pos_z (data (ms ! 0)))"
    unfolding t recorder_loop_init[OF assms(1)] by (simp_all add: ms)
qed

section \<open>The claims about the recorder\<close>



text \<open>
  C5. For every measurement the generator yields (the resolver keeping its contract), the
  gravity added to the third axis of the acceleration is the component 2 of what the
  resolver returns for this measurement's own position relative to the origin, that is
  its position minus the position of the first measurement: it is neither the gravity of
  another measurement nor the gravity at the absolute position.
\<close>

theorem gravity_from_relative_position:
  assumes "geo_param_total env" and "k < length (fst (get_gnss_ins_sim sim fs))"
  shows "\<exists>msg earth_para t.
     bag (fst (gnss_ins_sim_recorder env sim fs)) ! (2 * k) = (topic_name_imu env, ImuMsg msg, t) \<and>
     geo_param env [ref_pos sim ! k ! 0 - ref_pos sim ! 0 ! 0,
                    ref_pos sim ! k ! 1 - ref_pos sim ! 0 ! 1,
                    ref_pos sim ! k ! 2 - ref_pos sim ! 0 ! 2] = Inr earth_para \<and>
     2 < length earth_para \<and>
     vec_z (linear_acceleration msg) = accel sim ! k ! 2 + earth_para ! 2"
proof -
  let ?m = "fst (get_gnss_ins_sim sim fs) ! k"
  from calculate_g_total[OF assms(1), of ?m "ref_pos sim ! 0 ! 0" "ref_pos sim ! 0 ! 1" "ref_pos sim ! 0 ! 2"]
  obtain ep where ep: "geo_param env [ref_pos_x (data ?m) - ref_pos sim ! 0 ! 0,
        ref_pos_y (data ?m) - ref_pos sim ! 0 ! 1, ref_pos_z (data ?m) - ref_pos sim ! 0 ! 2] = Inr ep"
    and len: "2 < length ep"
    and g: "calculate_g env (ref_pos sim ! 0 ! 0) (ref_pos sim ! 0 ! 1) (ref_pos sim ! 0 ! 2) ?m = Inr (ep ! 2)"
    by blast
  have "bag (fst (gnss_ins_sim_recorder env sim fs)) ! (2 * k) =
          (topic_name_imu env, ImuMsg (set_imu env ?m (ep ! 2)), header_stamp env ?m)"
    using recorder_entries(1)[OF assms] g by (simp add: written_def)
  moreover have "vec_z (linear_acceleration (set_imu env ?m (ep ! 2))) = accel sim ! k ! 2 + ep ! 2"
    by (simp add: set_imu_def gen_nth_record(5)[OF assms(2)])
  moreover from ep have "geo_param env [ref_pos sim ! k ! 0 - ref_pos sim ! 0 ! 0,
                    ref_pos sim ! k ! 1 - ref_pos sim ! 0 ! 1,
                    ref_pos sim ! k ! 2 - ref_pos sim ! 0 ! 2] = Inr ep"
    by (simp add: gen_nth_record(5)[OF assms(2)])
  ultimately show ?thesis using len by blast
qed

theorem gravity_from_relative_position_witness:
  "geo_param_total env_varying \<and> 1 < length (fst (get_gnss_ins_sim scenario_E 100)) \<and>
   geo_param env_varying [0, 0, 0] = Inr [0, 0, 981 / 100] \<and>
   geo_param env_varying [1, 0, 0] = Inr [0, 0, 1081 / 100] \<and>
   geo_param env_varying [2, 2, 3] = Inr [0, 0, 1681 / 100] \<and>
   (\<exists>msg t. bag (fst (gnss_ins_sim_recorder env_varying scenario_E 100)) ! 2 = (''imu'', ImuMsg msg, t) \<and>
      vec_z (linear_acceleration msg) = 1081 / 100)"
proof -
  have k: "1 < length (fst (get_gnss_ins_sim scenario_E 100))"
    by (simp add: scenario_E_records)
  from gravity_from_relative_position[OF env_varying_total k]
  obtain msg ep t where
    b: "bag (fst (gnss_ins_sim_recorder env_varying scenario_E 100)) ! 2 = (''imu'', ImuMsg msg, t)"
    and ep: "geo_param env_varying [ref_pos scenario_E ! 1 ! 0 - ref_pos scenario_E ! 0 ! 0,
                    ref_pos scenario_E ! 1 ! 1 - ref_pos scenario_E ! 0 ! 1,
                    ref_pos scenario_E ! 1 ! 2 - ref_pos scenario_E ! 0 ! 2] = Inr ep"
    and a: "vec_z (linear_acceleration msg) = accel scenario_E ! 1 ! 2 + ep ! 2"
    by (auto simp: env_varying_def)
  from ep have "ep = [0, 0, 1081 / 100]"
    by (simp add: env_varying_def scenario_E_def)
  with a have "vec_z (linear_acceleration msg) = 1081 / 100"
    by (simp add: scenario_E_def)
  with b k env_varying_total show ?thesis by (simp add: env_varying_def)
qed

text \<open>
  C3. After the first measurement, and after every later one, the origin held by the loop
  is the position of the first measurement; the Odometry message written for the
  measurement k has the position ref_pos[k] - ref_pos[0], component by component; and the
  position in the first Odometry message is the zero vector.
\<close>

theorem origin_set_once:
  assumes "geo_param_total env" and "k < length (fst (get_gnss_ins_sim sim fs))"
  shows "(\<forall>j. 0 < j \<and> j \<le> length (fst (get_gnss_ins_sim sim fs)) \<longrightarrow>
            x_ori (fst (recorder_loop env init_state (take j (fst (get_gnss_ins_sim sim fs)))))
              = Some (ref_pos sim ! 0 ! 0) \<and>
            y_ori (fst (recorder_loop env init_state (take j (fst (get_gnss_ins_sim sim fs)))))
              = Some (ref_pos sim ! 0 ! 1) \<and>
            z_ori (fst (recorder_loop env init_state (take j (fst (get_gnss_ins_sim sim fs)))))
              = Some (ref_pos sim ! 0 ! 2)) \<and>
         (\<exists>msg_pos t.
            bag (fst (gnss_ins_sim_recorder env sim fs)) ! (2 * k + 1)
              = (topic_name_pos env, OdometryMsg msg_pos, t) \<and>
            pose_position msg_pos = \<lparr>pt_x = ref_pos sim ! k ! 0 - ref_pos sim ! 0 ! 0,
                                     pt_y = ref_pos sim ! k ! 1 - ref_pos sim ! 0 ! 1,
                                     pt_z = ref_pos sim ! k ! 2 - ref_pos sim ! 0 ! 2\<rparr>) \<and>
         (\<exists>msg_pos t.
            bag (fst (gnss_ins_sim_recorder env sim fs)) ! 1
              = (topic_name_pos env, OdometryMsg msg_pos, t) \<and>
            pose_position msg_pos = \<lparr>pt_x = 0, pt_y = 0, pt_z = 0\<rparr>)"
proof (intro conjI allI impI)
  let ?ms = "fst (get_gnss_ins_sim sim fs)"
  let ?xo = "ref_pos sim ! 0 ! 0" and ?yo = "ref_pos sim ! 0 ! 1" and ?zo = "ref_pos sim ! 0 ! 2"
  have k0: "0 < length ?ms" using assms(2) by linarith
  {
    fix j assume j: "0 < j \<and> j \<le> length ?ms"
    then have j1: "0 < j" and j2: "j \<le> length ?ms" by simp_all
    show "x_ori (fst (recorder_loop env init_state (take j ?ms))) = Some ?xo"
      using origin_after_prefix(2)[OF assms(1) j1 j2] first_position(1)[OF assms(2)] by simp
    show "y_ori (fst (recorder_loop env init_state (take j ?ms))) = Some ?yo"
      using origin_after_prefix(3)[OF assms(1) j1 j2] first_position(2)[OF assms(2)] by simp
    show "z_ori (fst (recorder_loop env init_state (take j ?ms))) = Some ?zo"
      using origin_after_prefix(4)[OF assms(1) j1 j2] first_position(3)[OF assms(2)] by simp
  }
  have "bag (fst (gnss_ins_sim_recorder env sim fs)) ! (2 * k + 1) =
          (topic_name_pos env, OdometryMsg (set_pose env ?xo ?yo ?zo (?ms ! k)), header_stamp env (?ms ! k))"
    using recorder_entries(2)[OF assms] by (simp add: written_def)
  moreover have "pose_position (set_pose env ?xo ?yo ?zo (?ms ! k)) =
        \<lparr>pt_x = ref_pos sim ! k ! 0 - ?xo, pt_y = ref_pos sim ! k ! 1 - ?yo,
         pt_z = ref_pos sim ! k ! 2 - ?zo\<rparr>"
    by (simp add: set_pose_def gen_nth_record(5)[OF assms(2)])
  ultimately show "\<exists>msg_pos t.
            bag (fst (gnss_ins_sim_recorder env sim fs)) ! (2 * k + 1)
              = (topic_name_pos env, OdometryMsg msg_pos, t) \<and>
            pose_position msg_pos = \<lparr>pt_x = ref_pos sim ! k ! 0 - ?xo,
                                     pt_y = ref_pos sim ! k ! 1 - ?yo,
                                     pt_z = ref_pos sim ! k ! 2 - ?zo\<rparr>"
    by blast
  have "bag (fst (gnss_ins_sim_recorder env sim fs)) ! 1 =
          (topic_name_pos env, OdometryMsg (set_pose env ?xo ?yo ?zo (?ms ! 0)), header_stamp env (?ms ! 0))"
    using recorder_entries(2)[OF assms(1) k0] by (simp add: written_def)
  moreover have "pose_position (set_pose env ?xo ?yo ?zo (?ms ! 0)) = \<lparr>pt_x = 0, pt_y = 0, pt_z = 0\<rparr>"
    by (simp add: set_pose_def gen_nth_record(5)[OF k0])
  ultimately show "\<exists>msg_pos t.
            bag (fst (gnss_ins_sim_recorder env sim fs)) ! 1
              = (topic_name_pos env, OdometryMsg msg_pos, t) \<and>
            pose_position msg_pos = \<lparr>pt_x = 0, pt_y = 0, pt_z = 0\<rparr>"
    by blast
qed

theorem origin_set_once_witness:
  "geo_param_total (env_const 10) \<and> 1 < length (fst (get_gnss_ins_sim scenario_C 100)) \<and>
   ref_pos scenario_C = [[1, 2, 3], [6, 2, 3]] \<and>
   x_ori (fst (recorder_loop (env_const 10) init_state (take 1 (fst (get_gnss_ins_sim scenario_C 100)))))
     = Some 1 \<and>
   x_ori (fst (recorder_loop (env_const 10) init_state (take 2 (fst (get_gnss_ins_sim scenario_C 100)))))
     = Some 1 \<and>
   (\<exists>msg_pos t. bag (fst (gnss_ins_sim_recorder (env_const 10) scenario_C 100)) ! 3
        = (''pose'', OdometryMsg msg_pos, t) \<and>
      pose_position msg_pos = \<lparr>pt_x = 5, pt_y = 0, pt_z = 0\<rparr>) \<and>
   (\<exists>msg_pos t. bag (fst (gnss_ins_sim_recorder (env_const 10) scenario_C 100)) ! 1
        = (''pose'', OdometryMsg msg_pos, t) \<and>
      pose_position msg_pos = \<lparr>pt_x = 0, pt_y = 0, pt_z = 0\<rparr>)"
proof -
  have k: "1 < length (fst (get_gnss_ins_sim scenario_C 100))"
    and len: "length (fst (get_gnss_ins_sim scenario_C 100)) = 2"
    by (simp_all add: scenario_C_records)
  note t = origin_set_once[OF env_const_total k, of 10]
  from t have p: "\<And>j. 0 < j \<and> j \<le> 2 \<Longrightarrow>
      x_ori (fst (recorder_loop (env_const 10) init_state (take j (fst (get_gnss_ins_sim scenario_C 100)))))
        = Some (ref_pos scenario_C ! 0 ! 0)"
    unfolding len by blast
  have "x_ori (fst (recorder_loop (env_const 10) init_state (take 1 (fst (get_gnss_ins_sim scenario_C 100)))))
          = Some 1"
    using p[of 1] by (simp add: scenario_C_def)
  moreover have "x_ori (fst (recorder_loop (env_const 10) init_state (take 2 (fst (get_gnss_ins_sim scenario_C 100)))))
          = Some 1"
    using p[of 2] by (simp add: scenario_C_def)
  moreover from t have "\<exists>msg_pos t. bag (fst (gnss_ins_sim_recorder (env_const 10) scenario_C 100)) ! 3
        = (''pose'', OdometryMsg msg_pos, t) \<and>
      pose_position msg_pos = \<lparr>pt_x = 5, pt_y = 0, pt_z = 0\<rparr>"
    by (simp add: scenario_C_def env_const_def)
  moreover from t have "\<exists>msg_pos t. bag (fst (gnss_ins_sim_recorder (env_const 10) scenario_C 100)) ! 1
        = (''pose'', OdometryMsg msg_pos, t) \<and>
      pose_position msg_pos = \<lparr>pt_x = 0, pt_y = 0, pt_z = 0\<rparr>"
    by (simp add: env_const_def)
  ultimately show ?thesis using k env_const_total by (simp add: scenario_C_def)
qed

text \<open>
  C6. Every measurement the generator yields becomes exactly two entries of the bag, with
  the same time stamp: an Imu message whose orientation is the quaternion of the
  measurement, whose angular velocity is its gyro sample and whose linear acceleration is
  the corrected acceleration, and an Odometry message whose position is the position
  relative to the origin and whose orientation is the same quaternion.
\<close>

theorem two_entities_per_record:
  assumes "geo_param_total env" and "k < length (fst (get_gnss_ins_sim sim fs))"
  shows "length (bag (fst (gnss_ins_sim_recorder env sim fs))) = 2 * length (fst (get_gnss_ins_sim sim fs)) \<and>
    (\<exists>m t g x_o y_o z_o.
       m = fst (get_gnss_ins_sim sim fs) ! k \<and>
       t = time_add env (timestamp_start env) (duration_from_sec env (stamp m)) \<and>
       x_o = ref_pos_x (data (fst (get_gnss_ins_sim sim fs) ! 0)) \<and>
       y_o = ref_pos_y (data (fst (get_gnss_ins_sim sim fs) ! 0)) \<and>
       z_o = ref_pos_z (data (fst (get_gnss_ins_sim sim fs) ! 0)) \<and>
       calculate_g env x_o y_o z_o m = Inr g \<and>
       bag (fst (gnss_ins_sim_recorder env sim fs)) ! (2 * k) =
         (topic_name_imu env,
          ImuMsg \<lparr>header = \<lparr>hdr_stamp = t, frame_id = ''ENU''\<rparr>,
                  orientation = \<lparr>quat_x = q0 (data m), quat_y = q1 (data m),
                                 quat_z = q2 (data m), quat_w = q3 (data m)\<rparr>,
                  angular_velocity = \<lparr>vec_x = gyro_x (data m), vec_y = gyro_y (data m),
                                      vec_z = gyro_z (data m)\<rparr>,
                  linear_acceleration = \<lparr>vec_x = accel_x (data m), vec_y = accel_y (data m),
                                         vec_z = accel_z (data m) + g\<rparr>\<rparr>,
          t) \<and>
       bag (fst (gnss_ins_sim_recorder env sim fs)) ! (2 * k + 1) =
         (topic_name_pos env,
          OdometryMsg \<lparr>odom_header = \<lparr>hdr_stamp = t, frame_id = ''inertial''\<rparr>,
                       child_frame_id = ''inertial'',
                       pose_position = \<lparr>pt_x = ref_pos_x (data m) - x_o,
                                        pt_y = ref_pos_y (data m) - y_o,
                                        pt_z = ref_pos_z (data m) - z_o\<rparr>,
                       pose_orientation = \<lparr>quat_x = q0 (data m), quat_y = q1 (data m),
                                           quat_z = q2 (data m), quat_w = q3 (data m)\<rparr>\<rparr>,
          t))"
proof -
  let ?ms = "fst (get_gnss_ins_sim sim fs)"
  let ?m = "?ms ! k"
  let ?xo = "ref_pos_x (data (?ms ! 0))" and ?yo = "ref_pos_y (data (?ms ! 0))"
    and ?zo = "ref_pos_z (data (?ms ! 0))"
  note o = first_position[OF assms(2)]
  from calculate_g_total[OF assms(1), of ?m ?xo ?yo ?zo]
  obtain g where g: "calculate_g env ?xo ?yo ?zo ?m = Inr g" by blast
  have "bag (fst (gnss_ins_sim_recorder env sim fs)) ! (2 * k) =
          (topic_name_imu env, ImuMsg (set_imu env ?m g), header_stamp env ?m)"
    using recorder_entries(1)[OF assms] g o by (simp add: written_def)
  moreover have "bag (fst (gnss_ins_sim_recorder env sim fs)) ! (2 * k + 1) =
          (topic_name_pos env, OdometryMsg (set_pose env ?xo ?yo ?zo ?m), header_stamp env ?m)"
    using recorder_entries(2)[OF assms] o by (simp add: written_def)
  ultimately show ?thesis
    using g recorder_entries(3)[OF assms]
    by (simp add: set_imu_def set_pose_def header_stamp_def)
qed

theorem two_entities_per_record_witness:
  "geo_param_total (env_const (981 / 100)) \<and> 0 < length (fst (get_gnss_ins_sim scenario_D 100)) \<and>
   bag (fst (gnss_ins_sim_recorder (env_const (981 / 100)) scenario_D 100)) =
     [(''imu'',
       ImuMsg \<lparr>header = \<lparr>hdr_stamp = 1000, frame_id = ''ENU''\<rparr>,
               orientation = \<lparr>quat_x = 7, quat_y = 8, quat_z = 9, quat_w = 10\<rparr>,
               angular_velocity = \<lparr>vec_x = 1, vec_y = 2, vec_z = 3\<rparr>,
               linear_acceleration = \<lparr>vec_x = 1 / 10, vec_y = 2 / 10, vec_z = 1951 / 100\<rparr>\<rparr>,
       1000),
      (''pose'',
       OdometryMsg \<lparr>odom_header = \<lparr>hdr_stamp = 1000, frame_id = ''inertial''\<rparr>,
                    child_frame_id = ''inertial'',
                    pose_position = \<lparr>pt_x = 0, pt_y = 0, pt_z = 0\<rparr>,
                    pose_orientation = \<lparr>quat_x = 7, quat_y = 8, quat_z = 9, quat_w = 10\<rparr>\<rparr>,
       1000)]"
proof -
  have k: "0 < length (fst (get_gnss_ins_sim scenario_D 100))"
    by (simp add: scenario_D_records)
  let ?b = "bag (fst (gnss_ins_sim_recorder (env_const (981 / 100)) scenario_D 100))"
  from two_entities_per_record[OF env_const_total k, of "981 / 100"]
  have len: "length ?b = 2"
    and "\<exists>g. calculate_g (env_const (981 / 100)) 4 5 6 (fst (get_gnss_ins_sim scenario_D 100) ! 0) = Inr g \<and>
      ?b ! 0 = (''imu'',
       ImuMsg \<lparr>header = \<lparr>hdr_stamp = 1000, frame_id = ''ENU''\<rparr>,
               orientation = \<lparr>quat_x = 7, quat_y = 8, quat_z = 9, quat_w = 10\<rparr>,
               angular_velocity = \<lparr>vec_x = 1, vec_y = 2, vec_z = 3\<rparr>,
               linear_acceleration = \<lparr>vec_x = 1 / 10, vec_y = 2 / 10, vec_z = 97 / 10 + g\<rparr>\<rparr>,
       1000) \<and>
      ?b ! 1 = (''pose'',
       OdometryMsg \<lparr>odom_header = \<lparr>hdr_stamp = 1000, frame_id = ''inertial''\<rparr>,
                    child_frame_id = ''inertial'',
                    pose_position = \<lparr>pt_x = 0, pt_y = 0, pt_z = 0\<rparr>,
                    pose_orientation = \<lparr>quat_x = 7, quat_y = 8, quat_z = 9, quat_w = 10\<rparr>\<rparr>,
       1000)"
    by (simp_all add: scenario_D_records env_const_def stamp_first)
  then obtain g where
    g: "calculate_g (env_const (981 / 100)) 4 5 6 (fst (get_gnss_ins_sim scenario_D 100) ! 0) = Inr g"
    and b0: "?b ! 0 = (''imu'',
       ImuMsg \<lparr>header = \<lparr>hdr_stamp = 1000, frame_id = ''ENU''\<rparr>,
               orientation = \<lparr>quat_x = 7, quat_y = 8, quat_z = 9, quat_w = 10\<rparr>,
               angular_velocity = \<lparr>vec_x = 1, vec_y = 2, vec_z = 3\<rparr>,
               linear_acceleration = \<lparr>vec_x = 1 / 10, vec_y = 2 / 10, vec_z = 97 / 10 + g\<rparr>\<rparr>,
       1000)"
    and b1: "?b ! 1 = (''pose'',
       OdometryMsg \<lparr>odom_header = \<lparr>hdr_stamp = 1000, frame_id = ''inertial''\<rparr>,
                    child_frame_id = ''inertial'',
                    pose_position = \<lparr>pt_x = 0, pt_y = 0, pt_z = 0\<rparr>,
                    pose_orientation = \<lparr>quat_x = 7, quat_y = 8, quat_z = 9, quat_w = 10\<rparr>\<rparr>,
       1000)"
    by blast
  from g have "g = 981 / 100" by (simp add: calculate_g_def env_const_def py_index_def)
  with b0 b1 len have "?b = [?b ! 0, ?b ! 1]" 
    by (simp add: list_eq_iff_nth_eq less_Suc_eq numeral_2_eq_2)
  with b0 b1 \<open>g = 981 / 100\<close> k env_const_total show ?thesis by simp
qed

text \<open>
  C10. The components 0, 1, 2, 3 of the simulator's quaternion go to the fields x, y, z, w
  of the orientation, in this order, in the Imu message and in the Odometry message alike.
\<close>

theorem quaternion_positional:
  assumes "geo_param_total env" and "k < length (fst (get_gnss_ins_sim sim fs))"
  shows "\<exists>msg msg_pos t.
     bag (fst (gnss_ins_sim_recorder env sim fs)) ! (2 * k) = (topic_name_imu env, ImuMsg msg, t) \<and>
     bag (fst (gnss_ins_sim_recorder env sim fs)) ! (2 * k + 1) = (topic_name_pos env, OdometryMsg msg_pos, t) \<and>
     orientation msg = \<lparr>quat_x = ref_att_quat sim ! k ! 0, quat_y = ref_att_quat sim ! k ! 1,
                        quat_z = ref_att_quat sim ! k ! 2, quat_w = ref_att_quat sim ! k ! 3\<rparr> \<and>
     pose_orientation msg_pos = \<lparr>quat_x = ref_att_quat sim ! k ! 0, quat_y = ref_att_quat sim ! k ! 1,
                        quat_z = ref_att_quat sim ! k ! 2, quat_w = ref_att_quat sim ! k ! 3\<rparr>"
proof -
  let ?m = "fst (get_gnss_ins_sim sim fs) ! k"
  let ?xo = "ref_pos sim ! 0 ! 0" and ?yo = "ref_pos sim ! 0 ! 1" and ?zo = "ref_pos sim ! 0 ! 2"
  from calculate_g_total[OF assms(1), of ?m ?xo ?yo ?zo]
  obtain g where g: "calculate_g env ?xo ?yo ?zo ?m = Inr g" by blast
  have "bag (fst (gnss_ins_sim_recorder env sim fs)) ! (2 * k) =
          (topic_name_imu env, ImuMsg (set_imu env ?m g), header_stamp env ?m)"
    using recorder_entries(1)[OF assms] g by (simp add: written_def)
  moreover have "bag (fst (gnss_ins_sim_recorder env sim fs)) ! (2 * k + 1) =
          (topic_name_pos env, OdometryMsg (set_pose env ?xo ?yo ?zo ?m), header_stamp env ?m)"
    using recorder_entries(2)[OF assms] by (simp add: written_def)
  moreover have "orientation (set_imu env ?m g) =
      \<lparr>quat_x = ref_att_quat sim ! k ! 0, quat_y = ref_att_quat sim ! k ! 1,
       quat_z = ref_att_quat sim ! k ! 2, quat_w = ref_att_quat sim ! k ! 3\<rparr>"
    by (simp add: set_imu_def gen_nth_record(5)[OF assms(2)])
  moreover have "pose_orientation (set_pose env ?xo ?yo ?zo ?m) =
      \<lparr>quat_x = ref_att_quat sim ! k ! 0, quat_y = ref_att_quat sim ! k ! 1,
       quat_z = ref_att_quat sim ! k ! 2, quat_w = ref_att_quat sim ! k ! 3\<rparr>"
    by (simp add: set_pose_def gen_nth_record(5)[OF assms(2)])
  ultimately show ?thesis by blast
qed

theorem quaternion_positional_witness:
  "geo_param_total (env_const 10) \<and> 1 < length (fst (get_gnss_ins_sim scenario_C 100)) \<and>
   ref_att_quat scenario_C ! 1 = [1, 0, 0, 0] \<and>
   (\<exists>msg msg_pos t.
     bag (fst (gnss_ins_sim_recorder (env_const 10) scenario_C 100)) ! 2 = (''imu'', ImuMsg msg, t) \<and>
     bag (fst (gnss_ins_sim_recorder (env_const 10) scenario_C 100)) ! 3 = (''pose'', OdometryMsg msg_pos, t) \<and>
     orientation msg = \<lparr>quat_x = 1, quat_y = 0, quat_z = 0, quat_w = 0\<rparr> \<and>
     pose_orientation msg_pos = \<lparr>quat_x = 1, quat_y = 0, quat_z = 0, quat_w = 0\<rparr>)"
proof -
  have k: "1 < length (fst (get_gnss_ins_sim scenario_C 100))"
    by (simp add: scenario_C_records)
  from quaternion_positional[OF env_const_total k, of 10] k env_const_total
  show ?thesis by (simp add: scenario_C_def env_const_def)
qed

end
